theory Spec2Isabelle
  imports Main "HOL-Library.Word"
begin

section \<open>The jsonnet command-line driver (jsonnet.cpp)\<close>

text \<open>
  A shallow embedding of \<^verbatim>\<open>jsonnet.cpp\<close>: the argument normaliser
  \<^verbatim>\<open>simplify_args\<close>, the helpers \<^verbatim>\<open>next_arg\<close> and \<^verbatim>\<open>strtol_check\<close>, and
  \<^verbatim>\<open>main\<close> (option loop, checks on the positional arguments, input acquisition,
  parse / unparse / static analysis / execution, error reports).

  Conventions.
  \<^item> A \<^verbatim>\<open>std::string\<close> that comes from \<^verbatim>\<open>argv\<close> is a \<open>string\<close>: the characters before
    the terminating NUL of the C string, so no NUL occurs in it. The text of a file or of
    standard input may hold NUL characters: where the source takes its \<^verbatim>\<open>c_str()\<close>, the
    model takes \<open>c_str\<close>, the characters before the first NUL.
  \<^item> The data model is LP64 (Linux and macOS on 64-bit machines): \<^verbatim>\<open>long\<close> has 64 bits
    and \<^verbatim>\<open>unsigned\<close> has 32. A \<^verbatim>\<open>long\<close> is an \<open>int\<close> between \<open>LONG_MIN\<close> and
    \<open>LONG_MAX\<close>; an \<^verbatim>\<open>unsigned\<close> is a \<open>32 word\<close>; the conversion from \<^verbatim>\<open>long\<close> to
    \<^verbatim>\<open>unsigned\<close> is \<open>word_of_int\<close> (reduction modulo \<open>2 ^ 32\<close>), the one back is \<open>uint\<close>.
  \<^item> \<^verbatim>\<open>exit(status)\<close> in the middle of a function is the left injection of a sum: the
    status with what has been written to standard output and standard error.
  \<^item> \<^verbatim>\<open>std::endl\<close> is a newline character.
\<close>

subsection \<open>Characters and output\<close>

definition endl :: string where
  "endl = [CHR 0x0A]"

definition tab :: string where
  "tab = [CHR 0x09]"

definition dquote :: string where
  "dquote = [CHR 0x22]"

datatype exit_status = EXIT_SUCCESS | EXIT_FAILURE

text \<open>\<open>Exit st out err\<close>: the process ended with status \<open>st\<close>, having written \<open>out\<close> to
  standard output and \<open>err\<close> to standard error.\<close>

datatype exit = Exit exit_status string string

text \<open>\<^verbatim>\<open>operator<<\<close> on a \<^verbatim>\<open>long\<close>: its decimal digits, with a minus sign when negative.\<close>

fun show_nat :: "nat \<Rightarrow> string" where
  "show_nat n =
     (if n < 10 then [char_of (48 + n)]
      else show_nat (n div 10) @ [char_of (48 + n mod 10)])"

definition show_long :: "int \<Rightarrow> string" where
  "show_long l = (if l < 0 then ''-'' @ show_nat (nat (- l)) else show_nat (nat l))"

subsection \<open>\<^verbatim>\<open>usage\<close>\<close>

definition usage :: string where
  "usage =
     ''Usage:'' @ endl @
     ''jsonnet {<option>} [<filename>]'' @ endl @
     ''where <filename> defaults to - (stdin)'' @ endl @
     ''and <option> can be:'' @ endl @
     ''    -h / --help            This message'' @ endl @
     ''    -e / --exec            Treat filename as code (requires explicit filename)'' @ endl @
     ''    -s / --max-stack <n>   Number of allowed stack frames'' @ endl @
     ''    --gc-min-objects       Do not run garbage collector until this many'' @ endl @
     ''    --gc-growth-trigger    Run garbage collector after this amount of object growth'' @ endl @
     ''    --debug-ast            Unparse the parsed AST without executing it'' @ endl @ endl @
     ''Multichar options are expanded e.g. -abc becomes -a -b -c.'' @ endl @
     ''The -- option suppresses option processing.  Note that since jsonnet programs can'' @ endl @
     ''begin with -, it is advised to use -- with -e if the program is unknown.'' @
     endl"

subsection \<open>\<^verbatim>\<open>next_arg\<close>\<close>

text \<open>The cursor \<open>i\<close> is passed by reference in the source: the new cursor is returned
  with the argument.\<close>

definition next_arg :: "nat \<Rightarrow> string list \<Rightarrow> exit + (nat \<times> string)" where
  "next_arg i args =
     (let i' = i + 1 in
      if i' \<ge> length args
      then Inl (Exit EXIT_FAILURE [] (''Expected another commandline argument.'' @ endl))
      else Inr (i', args ! i'))"

subsection \<open>\<^verbatim>\<open>simplify_args\<close>\<close>

text \<open>\<open>argv\<close> is the whole argument vector, \<open>argv ! 0\<close> the program's name, and \<open>argc\<close> its
  length. The loop \<^verbatim>\<open>for (int i=1 ; i<argc ; ++i)\<close> with the vector \<open>r\<close> built so far; the
  inner \<^verbatim>\<open>while ((++i) < argc)\<close> appends \<open>argv ! (i+1)\<close>, ... in order, and the inner
  \<^verbatim>\<open>for (unsigned j=1 ; j<arg.length() ; ++j)\<close> appends one token per \<open>j\<close>.\<close>

definition substr :: "string \<Rightarrow> nat \<Rightarrow> nat \<Rightarrow> string" where
  "substr s pos n = take n (drop pos s)"

function simplify_loop :: "string list \<Rightarrow> nat \<Rightarrow> string list \<Rightarrow> string list" where
  "simplify_loop argv i r =
     (if i < length argv then
        (let arg = argv ! i in
         if arg = ''--'' then r @ [arg] @ drop (i + 1) argv
         else if length arg > 2 \<and> arg ! 0 = CHR ''-'' \<and> arg ! 1 \<noteq> CHR ''-''
         then simplify_loop argv (i + 1)
                (r @ map (\<lambda>j. ''-'' @ substr arg j 1) [1 ..< length arg])
         else simplify_loop argv (i + 1) (r @ [arg]))
      else r)"
  by pat_completeness auto
termination
  by (relation "measure (\<lambda>(argv, i, r). length argv - i)") auto

declare simplify_loop.simps [simp del]

definition simplify_args :: "string list \<Rightarrow> string list" where
  "simplify_args argv = simplify_loop argv 1 []"

subsection \<open>\<^verbatim>\<open>strtol\<close> and \<^verbatim>\<open>strtol_check\<close>\<close>

text \<open>\<^verbatim>\<open>std::strtol\<close> belongs to the C library, not to the program. It is modelled from
  the C standard (7.22.1.4), for base 10 and the C locale: white space is skipped, then an
  optional sign, then the longest run of decimal digits is converted. With no digit there
  is no conversion: the result is 0 and the end pointer is the start of the string. A value
  out of the range of \<^verbatim>\<open>long\<close> gives \<open>LONG_MAX\<close> or \<open>LONG_MIN\<close>, all digits consumed. The
  function returns the value and the rest of the string at the end pointer.\<close>

definition LONG_MAX :: int where
  "LONG_MAX = 2 ^ 63 - 1"

definition LONG_MIN :: int where
  "LONG_MIN = - (2 ^ 63)"

definition isspace :: "char \<Rightarrow> bool" where
  "isspace c = (c = CHR '' '' \<or> (9 \<le> (of_char c :: nat) \<and> (of_char c :: nat) \<le> 13))"

definition isdigit :: "char \<Rightarrow> bool" where
  "isdigit c = (48 \<le> (of_char c :: nat) \<and> (of_char c :: nat) \<le> 57)"

definition digit_val :: "char \<Rightarrow> int" where
  "digit_val c = int (of_char c) - 48"

definition decimal :: "string \<Rightarrow> int" where
  "decimal ds = foldl (\<lambda>a c. 10 * a + digit_val c) 0 ds"

definition clamp_long :: "int \<Rightarrow> int" where
  "clamp_long v = (if v > LONG_MAX then LONG_MAX else if v < LONG_MIN then LONG_MIN else v)"

definition strtol :: "string \<Rightarrow> int \<times> string" where
  "strtol s =
     (let s1 = dropWhile isspace s;
          neg = (s1 \<noteq> [] \<and> hd s1 = CHR ''-'');
          s2 = (if s1 \<noteq> [] \<and> (hd s1 = CHR ''-'' \<or> hd s1 = CHR ''+'') then tl s1 else s1);
          ds = takeWhile isdigit s2
      in if ds = [] then (0, s)
         else (clamp_long (if neg then - decimal ds else decimal ds), dropWhile isdigit s2))"

definition strtol_check :: "string \<Rightarrow> exit + int" where
  "strtol_check str =
     (let (r, ep) = strtol str in
      if ep \<noteq> [] \<or> str = []
      then Inl (Exit EXIT_FAILURE []
                 (''ERROR: Invalid integer '' @ dquote @ str @ dquote @ endl @ endl @ usage))
      else Inr r)"

subsection \<open>\<^verbatim>\<open>main\<close>: the option loop\<close>

text \<open>The local variables of \<^verbatim>\<open>main\<close> that the options set. The type \<open>'d\<close> stands for
  \<^verbatim>\<open>double\<close>.\<close>

record 'd config =
  filename :: string
  gc_growth_trigger :: 'd
  max_stack :: "32 word"
  gc_min_objects :: "32 word"
  filename_is_code :: bool
  debug_ast :: bool

text \<open>What the platform decides. \<^verbatim>\<open>std::strtod\<close>, the comparison of a \<^verbatim>\<open>double\<close> with
  0 and the literal \<^verbatim>\<open>2.0\<close> are not modelled: they are parameters, so nothing is assumed of
  floating-point arithmetic. \<open>strtod s\<close> is the value and the rest of the string at the end
  pointer. \<open>freed_c_str t\<close> is the C string found at the address \<^verbatim>\<open>c_str()\<close> of a temporary
  \<^verbatim>\<open>std::string\<close> holding \<open>t\<close>, read after the temporary has been destroyed (line 126):
  the language does not say what is there, and it need not be \<open>t\<close>.\<close>

record 'd platform =
  strtod :: "string \<Rightarrow> 'd \<times> string"
  less_zero :: "'d \<Rightarrow> bool"
  literal_2_0 :: 'd
  freed_c_str :: "string \<Rightarrow> string"

definition init_config :: "'d platform \<Rightarrow> 'd config" where
  "init_config F =
     \<lparr> filename = ''-'', gc_growth_trigger = literal_2_0 F, max_stack = 500,
       gc_min_objects = 1000, filename_is_code = False, debug_ast = False \<rparr>"

text \<open>The branch of \<^verbatim>\<open>-s\<close> / \<^verbatim>\<open>--max-stack\<close> (lines 109 to 116): the new cursor and the
  new configuration, or the exit.\<close>

definition opt_max_stack ::
  "nat \<Rightarrow> string list \<Rightarrow> 'd config \<Rightarrow> exit + (nat \<times> 'd config)" where
  "opt_max_stack i args cfg =
     (case next_arg i args of
        Inl e \<Rightarrow> Inl e
      | Inr (i', t) \<Rightarrow>
          (case strtol_check t of
             Inl e \<Rightarrow> Inl e
           | Inr l \<Rightarrow>
               if l < 1
               then Inl (Exit EXIT_FAILURE []
                      (''ERROR: Invalid --max-stack value '' @ show_long l @ endl @ endl @ usage))
               else Inr (i', cfg\<lparr>max_stack := word_of_int l\<rparr>)))"

text \<open>The branch of \<^verbatim>\<open>--gc-min-objects\<close> (lines 117 to 124). The declaration
  \<^verbatim>\<open>long l = gc_min_objects = strtol_check(...)\<close> first converts the \<^verbatim>\<open>long\<close> to the
  \<^verbatim>\<open>unsigned\<close> variable, and \<open>l\<close> is the value of that variable.\<close>

definition opt_gc_min_objects ::
  "nat \<Rightarrow> string list \<Rightarrow> 'd config \<Rightarrow> exit + (nat \<times> 'd config)" where
  "opt_gc_min_objects i args cfg =
     (case next_arg i args of
        Inl e \<Rightarrow> Inl e
      | Inr (i', t) \<Rightarrow>
          (case strtol_check t of
             Inl e \<Rightarrow> Inl e
           | Inr r \<Rightarrow>
               (let cfg1 = cfg\<lparr>gc_min_objects := word_of_int r\<rparr>;
                    l = uint (gc_min_objects cfg1)
                in if l < 1
                   then Inl (Exit EXIT_FAILURE []
                          (''ERROR: Invalid --gc-min-objects value '' @ show_long l @ endl @ endl
                           @ usage))
                   else Inr (i', cfg1\<lparr>gc_min_objects := word_of_int l\<rparr>))))"

text \<open>The branch of \<^verbatim>\<open>--gc-growth-trigger\<close> (lines 125 to 138). The declaration
  \<^verbatim>\<open>const char *arg = next_arg(i,args).c_str();\<close> keeps a pointer into the temporary string
  that \<^verbatim>\<open>next_arg\<close> returns by value; the temporary is destroyed at the end of the
  declaration, and \<^verbatim>\<open>strtod\<close>, the two tests and the two messages read \<open>arg\<close> after that:
  they read \<open>freed_c_str\<close> of the token, not the token.\<close>

definition opt_gc_growth_trigger ::
  "'d platform \<Rightarrow> nat \<Rightarrow> string list \<Rightarrow> 'd config \<Rightarrow> exit + (nat \<times> 'd config)" where
  "opt_gc_growth_trigger F i args cfg =
     (case next_arg i args of
        Inl e \<Rightarrow> Inl e
      | Inr (i', token) \<Rightarrow>
          (let arg = freed_c_str F token;
               (v, ep) = strtod F arg;
               cfg1 = cfg\<lparr>gc_growth_trigger := v\<rparr>
           in if ep \<noteq> [] \<or> arg = []
              then Inl (Exit EXIT_FAILURE []
                     (''ERROR: Invalid number '' @ dquote @ arg @ dquote @ endl @ usage))
              else if less_zero F (gc_growth_trigger cfg1)
              then Inl (Exit EXIT_FAILURE []
                     (''ERROR: Invalid --gc-growth-trigger '' @ dquote @ arg @ dquote @ endl
                      @ endl @ usage))
              else Inr (i', cfg1)))"

text \<open>The loop \<^verbatim>\<open>for (unsigned i=0 ; i<args.size() ; ++i)\<close> (lines 104 to 151), with the
  configuration and \<^verbatim>\<open>remaining_args\<close> so far. It ends in an exit or in the configuration
  and the positional arguments.\<close>

function parse_loop ::
  "'d platform \<Rightarrow> string list \<Rightarrow> nat \<Rightarrow> 'd config \<Rightarrow> string list
     \<Rightarrow> exit + ('d config \<times> string list)" where
  "parse_loop F args i cfg remaining_args =
     (if i < length args then
        (let arg = args ! i in
         if arg = ''-h'' \<or> arg = ''--help'' then Inl (Exit EXIT_SUCCESS usage [])
         else if arg = ''-s'' \<or> arg = ''--max-stack'' then
           (case opt_max_stack i args cfg of
              Inl e \<Rightarrow> Inl e
            | Inr (i', cfg') \<Rightarrow> parse_loop F args (i' + 1) cfg' remaining_args)
         else if arg = ''--gc-min-objects'' then
           (case opt_gc_min_objects i args cfg of
              Inl e \<Rightarrow> Inl e
            | Inr (i', cfg') \<Rightarrow> parse_loop F args (i' + 1) cfg' remaining_args)
         else if arg = ''--gc-growth-trigger'' then
           (case opt_gc_growth_trigger F i args cfg of
              Inl e \<Rightarrow> Inl e
            | Inr (i', cfg') \<Rightarrow> parse_loop F args (i' + 1) cfg' remaining_args)
         else if arg = ''-e'' \<or> arg = ''--exec'' then
           parse_loop F args (i + 1) (cfg\<lparr>filename_is_code := True\<rparr>) remaining_args
         else if arg = ''--debug-ast'' then
           parse_loop F args (i + 1) (cfg\<lparr>debug_ast := True\<rparr>) remaining_args
         else if arg = ''--'' then
           Inr (cfg, remaining_args @ drop (i + 1) args)
         else parse_loop F args (i + 1) cfg (remaining_args @ [args ! i]))
      else Inr (cfg, remaining_args))"
  by pat_completeness auto
termination
  by (relation "measure (\<lambda>(F, args, i, cfg, r). length args - i)")
     (auto simp: opt_max_stack_def opt_gc_min_objects_def opt_gc_growth_trigger_def
                 next_arg_def Let_def
           split: sum.splits if_splits prod.splits)

declare parse_loop.simps [simp del]

text \<open>The checks after the loop (lines 153 to 167).\<close>

definition check_filename :: "'d config \<Rightarrow> string list \<Rightarrow> exit + 'd config" where
  "check_filename cfg remaining_args =
     (let cfg1 = (if length remaining_args > 0 then cfg\<lparr>filename := remaining_args ! 0\<rparr>
                  else cfg)
      in if length remaining_args > 1
         then Inl (Exit EXIT_FAILURE []
                (''ERROR: Filename already specified as '' @ dquote @ filename cfg1 @ dquote
                 @ endl @ endl @ usage))
         else if filename_is_code cfg1 \<and> length remaining_args = 0
         then Inl (Exit EXIT_FAILURE []
                (''ERROR: Must give filename when using -e, --exec'' @ endl @ endl @ usage))
         else Inr cfg1)"

text \<open>Lines 101 to 167: the options of a normalised token stream.\<close>

definition parse_options :: "'d platform \<Rightarrow> string list \<Rightarrow> exit + 'd config" where
  "parse_options F args =
     (case parse_loop F args 0 (init_config F) [] of
        Inl e \<Rightarrow> Inl e
      | Inr (cfg, remaining_args) \<Rightarrow> check_filename cfg remaining_args)"

subsection \<open>\<^verbatim>\<open>main\<close>: input, pipeline and error reports\<close>

text \<open>Modelled from the spec: the error values of the collaborators. \<^verbatim>\<open>StaticError\<close>,
  \<^verbatim>\<open>RuntimeError\<close> and the stack frame are declared in the headers that
  \<^verbatim>\<open>jsonnet.cpp\<close> includes (\<^verbatim>\<open>lexer.h\<close>, \<^verbatim>\<open>parser.h\<close>, \<^verbatim>\<open>static_analysis.h\<close>,
  \<^verbatim>\<open>vm.h\<close>), not in \<^verbatim>\<open>jsonnet.cpp\<close>. By sections 3 and 4.5 of the specification, and
  by the members that \<^verbatim>\<open>main\<close> reads, a runtime error carries a message and a stack trace,
  a sequence of frames with a location and a name; a static error is printed as one text.
  A \<^verbatim>\<open>StaticError\<close> is given by the text that \<^verbatim>\<open>operator<<\<close> prints for it, and the
  location of a frame by its printed form.\<close>

datatype StaticError = StaticError string

record frame =
  location :: string
  name :: string

record RuntimeError =
  msg :: string
  stackTrace :: "frame list"

text \<open>The world outside the driver: standard input, the files (\<open>Inl\<close> the reason that
  \<^verbatim>\<open>perror\<close> prints when the file cannot be opened) and the collaborators. The
  collaborators are functions of other files of the program: they are parameters, with the
  contracts of section 6 of the specification (the parser and the static analysis return a
  tree or a \<^verbatim>\<open>StaticError\<close>, the unparser a text, the execution a text or a
  \<^verbatim>\<open>RuntimeError\<close>). \<open>'ast\<close> is the syntax tree. The static analysis may change the
  tree in place: it returns the tree.\<close>

record ('ast, 'd) world =
  stdin_text :: string
  open_file :: "string \<Rightarrow> string + string"
  jsonnet_parse :: "string \<Rightarrow> string \<Rightarrow> StaticError + 'ast"
  jsonnet_unparse_jsonnet :: "'ast \<Rightarrow> string"
  jsonnet_static_analysis :: "'ast \<Rightarrow> StaticError + 'ast"
  jsonnet_vm_execute :: "'ast \<Rightarrow> 32 word \<Rightarrow> 32 word \<Rightarrow> 'd \<Rightarrow> RuntimeError + string"

text \<open>The calls of the collaborators, in order, with their arguments.\<close>

datatype ('ast, 'd) call =
  CallParse string string
| CallUnparse 'ast
| CallStaticAnalysis 'ast
| CallVmExecute 'ast "32 word" "32 word" 'd

record ('ast, 'd) outcome =
  exit_code :: exit_status
  out :: string
  err :: string
  calls :: "('ast, 'd) call list"

text \<open>The loop over the stack trace (lines 210 to 221), from frame \<open>i\<close> on: the lines
  written to standard error. \<open>sz\<close>, \<open>max_above\<close> and \<open>max_below\<close> are of type
  \<^verbatim>\<open>long\<close>, so \<open>sz - max_below\<close> may be negative.\<close>

definition max_above :: int where
  "max_above = 10"

definition max_below :: int where
  "max_below = 10"

definition ellipsis_line :: string where
  "ellipsis_line = tab @ ''...'' @ endl"

definition frame_line :: "frame \<Rightarrow> string" where
  "frame_line f = tab @ location f @ tab @ name f @ endl"

function print_trace :: "frame list \<Rightarrow> nat \<Rightarrow> string list" where
  "print_trace st i =
     (let sz = int (length st) in
      if int i < sz then
        (let f = st ! i in
         (if int i \<ge> max_above \<and> int i < sz - max_below
          then (if int i = max_above then [ellipsis_line] else [])
          else [frame_line f])
         @ print_trace st (i + 1))
      else [])"
  by pat_completeness auto
termination
  by (relation "measure (\<lambda>(st, i). length st - i)") auto

declare print_trace.simps [simp del]

definition report_runtime_error :: "RuntimeError \<Rightarrow> string" where
  "report_runtime_error e =
     ''RUNTIME ERROR: '' @ msg e @ endl @ concat (print_trace (stackTrace e) 0)"

definition report_static_error :: "StaticError \<Rightarrow> string" where
  "report_static_error e = (case e of StaticError text \<Rightarrow> ''STATIC ERROR: '' @ text @ endl)"

text \<open>The input (lines 170 to 190): the display name and the source text, or the failure
  to open the file.\<close>

definition read_input :: "('ast, 'd) world \<Rightarrow> 'd config \<Rightarrow> ('ast, 'd) outcome + (string \<times> string)" where
  "read_input W cfg =
     (if filename_is_code cfg then Inr (''<cmdline>'', filename cfg)
      else if filename cfg = ''-'' then Inr (''<stdin>'', stdin_text W)
      else (case open_file W (filename cfg) of
              Inl reason \<Rightarrow>
                Inl \<lparr> exit_code = EXIT_FAILURE, out = [],
                      err = ''Opening input file: '' @ filename cfg @ '': '' @ reason @ endl,
                      calls = [] \<rparr>
            | Inr text \<Rightarrow> Inr (filename cfg, text)))"

text \<open>\<^verbatim>\<open>c_str()\<close> of a string read from a file or from standard input, as a C function
  sees it: the characters before the first NUL.\<close>

definition c_str :: "string \<Rightarrow> string" where
  "c_str s = takeWhile (\<lambda>c. c \<noteq> CHR 0x00) s"

text \<open>The \<^verbatim>\<open>try\<close> block and its handlers (lines 169 to 225). The parser is handed
  \<^verbatim>\<open>input.c_str()\<close> (line 193).\<close>

definition run :: "('ast, 'd) world \<Rightarrow> 'd config \<Rightarrow> ('ast, 'd) outcome" where
  "run W cfg =
     (case read_input W cfg of
        Inl failure \<Rightarrow> failure
      | Inr (fname, input) \<Rightarrow>
          (case jsonnet_parse W fname (c_str input) of
             Inl e \<Rightarrow>
               \<lparr> exit_code = EXIT_FAILURE, out = [], err = report_static_error e,
                 calls = [CallParse fname (c_str input)] \<rparr>
           | Inr expr \<Rightarrow>
               if debug_ast cfg
               then \<lparr> exit_code = EXIT_SUCCESS, out = jsonnet_unparse_jsonnet W expr @ endl,
                      err = [], calls = [CallParse fname (c_str input), CallUnparse expr] \<rparr>
               else
                 (case jsonnet_static_analysis W expr of
                    Inl e \<Rightarrow>
                      \<lparr> exit_code = EXIT_FAILURE, out = [], err = report_static_error e,
                        calls = [CallParse fname (c_str input), CallStaticAnalysis expr] \<rparr>
                  | Inr expr' \<Rightarrow>
                      (let vm = CallVmExecute expr' (max_stack cfg) (gc_min_objects cfg)
                                  (gc_growth_trigger cfg)
                       in case jsonnet_vm_execute W expr' (max_stack cfg) (gc_min_objects cfg)
                                 (gc_growth_trigger cfg) of
                            Inl e \<Rightarrow>
                              \<lparr> exit_code = EXIT_FAILURE, out = [],
                                err = report_runtime_error e,
                                calls = [CallParse fname (c_str input), CallStaticAnalysis expr, vm] \<rparr>
                          | Inr result \<Rightarrow>
                              \<lparr> exit_code = EXIT_SUCCESS, out = result @ endl, err = [],
                                calls = [CallParse fname (c_str input), CallStaticAnalysis expr, vm] \<rparr>))))"

text \<open>The whole of \<^verbatim>\<open>main\<close>: an exit during option processing calls no collaborator.\<close>

definition main :: "'d platform \<Rightarrow> ('ast, 'd) world \<Rightarrow> string list \<Rightarrow> ('ast, 'd) outcome" where
  "main F W argv =
     (case parse_options F (simplify_args argv) of
        Inl (Exit st so se) \<Rightarrow> \<lparr> exit_code = st, out = so, err = se, calls = [] \<rparr>
      | Inr cfg \<Rightarrow> run W cfg)"

section \<open>The specification's words\<close>

text \<open>The bounded stack trace as the specification describes it (section 4.5): what is
  printed for the frame of index \<open>i\<close>.\<close>

definition spec_trace_line :: "frame list \<Rightarrow> nat \<Rightarrow> string list" where
  "spec_trace_line st i =
     (if int i < max_above \<or> int i \<ge> int (length st) - max_below then [frame_line (st ! i)]
      else if int i = max_above then [ellipsis_line]
      else [])"

text \<open>The expansion of a token as the specification describes it (section 4.1): a token
  of length above 2 that begins with a single dash is split into one token per character
  after the dash, each with a dash before it; any other token is kept. The normalised list
  expands the tokens before the first terminator and keeps the terminator and what follows.\<close>

definition is_cluster :: "string \<Rightarrow> bool" where
  "is_cluster t \<longleftrightarrow> length t > 2 \<and> hd t = CHR ''-'' \<and> t ! 1 \<noteq> CHR ''-''"

definition expand_token :: "string \<Rightarrow> string list" where
  "expand_token t = (if is_cluster t then map (\<lambda>c. [CHR ''-'', c]) (tl t) else [t])"

definition spec_normalize :: "string list \<Rightarrow> string list" where
  "spec_normalize xs =
     concat (map expand_token (takeWhile (\<lambda>t. t \<noteq> ''--'') xs))
     @ dropWhile (\<lambda>t. t \<noteq> ''--'') xs"

text \<open>The tokens that the option loop reads as options; any other token is a positional
  argument.\<close>

definition is_option :: "string \<Rightarrow> bool" where
  "is_option t \<longleftrightarrow>
     t \<in> {''-h'', ''--help'', ''-s'', ''--max-stack'', ''--gc-min-objects'',
          ''--gc-growth-trigger'', ''-e'', ''--exec'', ''--debug-ast'', ''--''}"

text \<open>What the tokens \<open>ys\<close> after a terminator add to the result of the option loop: nothing
  to an exit, and themselves at the end of the positional arguments.\<close>

definition after_terminator ::
  "string list \<Rightarrow> exit + ('d config \<times> string list) \<Rightarrow> exit + ('d config \<times> string list)" where
  "after_terminator ys res =
     (case res of Inl e \<Rightarrow> Inl e | Inr (cfg, remaining_args) \<Rightarrow> Inr (cfg, remaining_args @ ys))"

section \<open>An instance for closed examples\<close>

text \<open>The platform and the collaborators are parameters of the model. For examples on
  concrete command lines they are instantiated. Numbers are the integers that \<open>strtol\<close>
  reads. The destroyed temporary is read as with the small-string layout of libstdc++ on
  glibc: a token of at most 15 characters lies in the buffer of the string object itself and
  is read intact; a longer one lies in a heap block that has been freed and whose first
  bytes the allocator has overwritten, and the instance reads the empty string there. The
  syntax tree is the source text, the parser, the analysis and the execution return it
  unchanged, standard input holds \<open>{}\<close>, and every file but \<open>missing.jsonnet\<close> holds
  \<open>{}\<close>.\<close>

definition integer_platform :: "int platform" where
  "integer_platform =
     \<lparr> strtod = strtol, less_zero = (\<lambda>x. x < 0), literal_2_0 = 2,
       freed_c_str = (\<lambda>t. if length t \<le> 15 then t else []) \<rparr>"

definition echo_world :: "(string, int) world" where
  "echo_world =
     \<lparr> stdin_text = ''{}'',
       open_file = (\<lambda>path. if path = ''missing.jsonnet'' then Inl ''No such file or directory''
                          else Inr ''{}''),
       jsonnet_parse = (\<lambda>fname text. Inr text),
       jsonnet_unparse_jsonnet = (\<lambda>expr. expr),
       jsonnet_static_analysis = (\<lambda>expr. Inr expr),
       jsonnet_vm_execute = (\<lambda>expr ms gmo ggt. Inr expr) \<rparr>"

text \<open>The same world with an execution that fails with a stack trace of \<open>n\<close> frames.\<close>

definition stack_overflow_world :: "nat \<Rightarrow> (string, int) world" where
  "stack_overflow_world n =
     echo_world\<lparr> jsonnet_vm_execute :=
       (\<lambda>expr ms gmo ggt.
          Inl \<lparr> msg = ''Max stack frames exceeded.'',
                stackTrace = replicate n \<lparr> location = ''a.jsonnet:1:1'', name = ''f'' \<rparr> \<rparr>) \<rparr>"

section \<open>Properties\<close>

subsection \<open>The stack trace of a runtime error\<close>

lemma print_trace_upt:
  "print_trace st i = concat (map (spec_trace_line st) [i ..< length st])"
proof (induction st i rule: print_trace.induct)
  case (1 st i)
  show ?case
  proof (cases "i < length st")
    case True
    have step: "[i ..< length st] = i # [i + 1 ..< length st]"
      using True by (simp add: upt_conv_Cons)
    have here: "(if int i \<ge> max_above \<and> int i < int (length st) - max_below
          then (if int i = max_above then [ellipsis_line] else [])
          else [frame_line (st ! i)]) = spec_trace_line st i"
      by (auto simp: spec_trace_line_def)
    have "print_trace st i = spec_trace_line st i @ print_trace st (i + 1)"
      using True here by (subst print_trace.simps) (simp add: Let_def)
    also have "print_trace st (i + 1) = concat (map (spec_trace_line st) [i + 1 ..< length st])"
      using "1.IH" True by simp
    finally show ?thesis using step by simp
  next
    case False
    then show ?thesis by (subst print_trace.simps) simp
  qed
qed

lemma map_nth_upt: "b \<le> length xs \<Longrightarrow> map ((!) xs) [a ..< b] = drop a (take b xs)"
  by (simp add: list_eq_iff_nth_eq)

lemma upt_split: "a \<le> b \<Longrightarrow> b \<le> c \<Longrightarrow> [a ..< c] = [a ..< b] @ [b ..< c]"
  by (metis le_add_diff_inverse upt_add_eq_append)

lemma frames_segment:
  assumes "b \<le> length st" and "\<And>i. a \<le> i \<Longrightarrow> i < b \<Longrightarrow> i < 10 \<or> length st \<le> i + 10"
  shows "concat (map (spec_trace_line st) [a ..< b]) = map frame_line (drop a (take b st))"
proof -
  have "spec_trace_line st i = [frame_line (st ! i)]" if "i \<in> set [a ..< b]" for i
  proof -
    from that have "i < 10 \<or> length st \<le> i + 10" using assms(2) by simp
    then show ?thesis by (auto simp: spec_trace_line_def max_above_def max_below_def)
  qed
  then have "map (spec_trace_line st) [a ..< b] = map (\<lambda>i. [frame_line (st ! i)]) [a ..< b]"
    by (intro map_cong) auto
  then have "concat (map (spec_trace_line st) [a ..< b]) = map (\<lambda>i. frame_line (st ! i)) [a ..< b]"
    by (simp only: concat_map_singleton)
  also have "\<dots> = map frame_line (map ((!) st) [a ..< b])" by (simp add: comp_def)
  finally show ?thesis using assms(1) by (simp add: map_nth_upt)
qed

lemma hidden_segment:
  assumes "10 < a" and "b + 10 \<le> length st"
  shows "concat (map (spec_trace_line st) [a ..< b]) = []"
  using assms by (auto simp: spec_trace_line_def max_above_def max_below_def)

lemma print_trace_short:
  assumes "length st \<le> 20"
  shows "print_trace st 0 = map frame_line st"
proof -
  have "concat (map (spec_trace_line st) [0 ..< length st]) = map frame_line (drop 0 (take (length st) st))"
    using assms by (intro frames_segment) auto
  then show ?thesis by (simp add: print_trace_upt)
qed

lemma print_trace_long:
  assumes "20 < length st"
  shows "print_trace st 0 =
           map frame_line (take 10 st) @ [ellipsis_line] @ map frame_line (drop (length st - 10) st)"
proof -
  let ?n = "length st"
  let ?g = "spec_trace_line st"
  have "[0 ..< ?n] = [0 ..< 10] @ [10 ..< ?n]"
    using assms by (intro upt_split) auto
  also have "[10 ..< ?n] = 10 # [11 ..< ?n]"
    using assms by (simp add: upt_conv_Cons)
  also have "[11 ..< ?n] = [11 ..< ?n - 10] @ [?n - 10 ..< ?n]"
    using assms by (intro upt_split) auto
  finally have split: "[0 ..< ?n] = [0 ..< 10] @ 10 # [11 ..< ?n - 10] @ [?n - 10 ..< ?n]" .
  have head: "concat (map ?g [0 ..< 10]) = map frame_line (drop 0 (take 10 st))"
    using assms by (intro frames_segment) auto
  have mid: "?g 10 = [ellipsis_line]"
    using assms by (simp add: spec_trace_line_def max_above_def max_below_def)
  have gap: "concat (map ?g [11 ..< ?n - 10]) = []"
    using assms by (intro hidden_segment) auto
  have tail: "concat (map ?g [?n - 10 ..< ?n]) = map frame_line (drop (?n - 10) (take ?n st))"
    using assms by (intro frames_segment) auto
  have "print_trace st 0 = concat (map ?g [0 ..< ?n])"
    by (rule print_trace_upt)
  also have "\<dots> = concat (map ?g [0 ..< 10]) @ ?g 10 @ concat (map ?g [11 ..< ?n - 10])
                     @ concat (map ?g [?n - 10 ..< ?n])"
    by (subst split) simp
  finally show ?thesis
    by (simp only: head mid gap tail) simp
qed

lemma print_trace_closed:
  "print_trace st 0 =
       map frame_line (take 10 st)
       @ (if length st > 20 then [ellipsis_line] else [])
       @ map frame_line (drop (max 10 (length st - 10)) st)"
proof (cases "length st > 20")
  case True
  then have "max 10 (length st - 10) = length st - 10" by simp
  then show ?thesis using True print_trace_long [OF True] by simp
next
  case False
  then have short: "length st \<le> 20" by simp
  have "max 10 (length st - 10) = 10" using short by simp
  moreover have "map frame_line (take 10 st) @ map frame_line (drop 10 st) = map frame_line st"
    by (simp flip: map_append)
  ultimately show ?thesis using False print_trace_short [OF short] by simp
qed

subsection \<open>The integer validator \<^verbatim>\<open>strtol_check\<close>\<close>

lemma isspace_not_sign: "isspace c \<Longrightarrow> c \<noteq> CHR ''-'' \<and> c \<noteq> CHR ''+'' \<and> \<not> isdigit c"
  by (auto simp: isspace_def isdigit_def)

lemma isdigit_not_sign: "isdigit c \<Longrightarrow> c \<noteq> CHR ''-'' \<and> c \<noteq> CHR ''+'' \<and> \<not> isspace c"
  by (auto simp: isspace_def isdigit_def)

lemma sign_not_space: "\<not> isspace CHR ''-''" "\<not> isspace CHR ''+''" "\<not> isdigit CHR ''-''" "\<not> isdigit CHR ''+''"
  by (simp_all add: isspace_def isdigit_def)

lemma strtol_check_iff:
  "strtol_check s = Inr v \<longleftrightarrow> s \<noteq> [] \<and> snd (strtol s) = [] \<and> v = fst (strtol s)"
  by (auto simp: strtol_check_def split: prod.splits)

lemma strtol_check_reject_iff:
  "(\<exists>e. strtol_check s = Inl e) \<longleftrightarrow> s = [] \<or> snd (strtol s) \<noteq> []"
  by (auto simp: strtol_check_def split: prod.splits)

lemma strtol_decomposed:
  assumes ws: "list_all isspace ws"
      and sg: "sg = [] \<or> sg = ''+'' \<or> sg = ''-''"
      and ds: "ds \<noteq> []" "list_all isdigit ds"
  shows "strtol (ws @ sg @ ds) =
           (clamp_long (if sg = ''-'' then - decimal ds else decimal ds), [])"
proof -
  obtain d ds' where dsc: "ds = d # ds'" using ds(1) by (cases ds) auto
  have d: "isdigit d" using ds(2) dsc by simp
  have nsp: "\<not> isspace (hd (sg @ ds))"
    using sg d dsc by (auto simp: sign_not_space dest: isdigit_not_sign)
  have ne: "sg @ ds \<noteq> []" using ds(1) by simp
  have s1: "dropWhile isspace (ws @ sg @ ds) = sg @ ds"
  proof -
    have "dropWhile isspace (ws @ sg @ ds) = dropWhile isspace (sg @ ds)"
      using ws by (simp add: dropWhile_append2 list_all_iff)
    also have "\<dots> = sg @ ds" using nsp ne by (cases "sg @ ds") auto
    finally show ?thesis .
  qed
  have tw: "takeWhile isdigit ds = ds" "dropWhile isdigit ds = []"
    using ds(2) by (simp_all add: list_all_iff)
  have hd_sign: "hd (sg @ ds) = CHR ''-'' \<longleftrightarrow> sg = ''-''"
                "hd (sg @ ds) = CHR ''-'' \<or> hd (sg @ ds) = CHR ''+'' \<longleftrightarrow> sg \<noteq> []"
    using sg d dsc isdigit_not_sign [of d] by auto
  have neg: "(sg @ ds \<noteq> [] \<and> hd (sg @ ds) = CHR ''-'') = (sg = ''-'')"
    using ne hd_sign(1) by simp
  have s2: "(if sg @ ds \<noteq> [] \<and> (hd (sg @ ds) = CHR ''-'' \<or> hd (sg @ ds) = CHR ''+'')
             then tl (sg @ ds) else sg @ ds) = ds"
    using sg ne hd_sign(2) by auto
  show ?thesis
    unfolding strtol_def Let_def s1 neg s2 tw using ds(1) by simp
qed

lemma strtol_accepts_decompose:
  assumes "s \<noteq> []" "snd (strtol s) = []"
  shows "\<exists>ws sg ds. s = ws @ sg @ ds \<and> list_all isspace ws
           \<and> (sg = [] \<or> sg = ''+'' \<or> sg = ''-'') \<and> ds \<noteq> [] \<and> list_all isdigit ds"
proof -
  let ?s1 = "dropWhile isspace s"
  let ?signed = "?s1 \<noteq> [] \<and> (hd ?s1 = CHR ''-'' \<or> hd ?s1 = CHR ''+'')"
  let ?sg = "if ?signed then [hd ?s1] else []"
  let ?s2 = "if ?signed then tl ?s1 else ?s1"
  have conv: "takeWhile isdigit ?s2 \<noteq> []"
  proof
    assume h: "takeWhile isdigit ?s2 = []"
    have "strtol s = (0, s)"
      unfolding strtol_def Let_def by (simp only: h simp_thms if_True)
    with assms show False by simp
  qed
  have "snd (strtol s) = dropWhile isdigit ?s2"
    unfolding strtol_def Let_def by (simp only: conv simp_thms if_False snd_conv)
  with assms(2) have rest: "dropWhile isdigit ?s2 = []" by simp
  have all: "list_all isdigit ?s2"
    using rest unfolding list_all_iff dropWhile_eq_Nil_conv by blast
  have ne: "?s2 \<noteq> []" using conv by fastforce
  have a: "s = takeWhile isspace s @ ?sg @ ?s2"
  proof -
    have "?s1 = ?sg @ ?s2" by (cases ?s1) simp_all
    then have "takeWhile isspace s @ ?s1 = takeWhile isspace s @ ?sg @ ?s2" by (rule arg_cong)
    then show ?thesis by (simp only: takeWhile_dropWhile_id)
  qed
  have b: "list_all isspace (takeWhile isspace s)"
    unfolding list_all_iff using set_takeWhileD by fast
  have c: "?sg = [] \<or> ?sg = ''+'' \<or> ?sg = ''-''" by auto
  show ?thesis
    using a b c ne all by blast
qed

text \<open>Claim C10. \<^verbatim>\<open>strtol_check\<close> rejects a token exactly when it is empty or
  \<^verbatim>\<open>strtol\<close> leaves characters unread (the whole token when it converts nothing). So the
  accepted tokens are those made of white space, then an optional sign \<open>+\<close> or \<open>-\<close>, then
  one digit or more; the result is the signed decimal value, brought into the range of
  \<^verbatim>\<open>long\<close>: the tokens \<open>'' 5''\<close> and \<open>''+5''\<close> are accepted with the value 5, and a
  token out of range is accepted with \<open>LONG_MAX\<close> or \<open>LONG_MIN\<close>.\<close>

theorem strtol_check_accepts:
  "((\<exists>e. strtol_check s = Inl e) \<longleftrightarrow> s = [] \<or> snd (strtol s) \<noteq> [])
   \<and> (strtol_check s = Inr v \<longleftrightarrow>
        (\<exists>ws sg ds. s = ws @ sg @ ds \<and> list_all isspace ws
           \<and> (sg = [] \<or> sg = ''+'' \<or> sg = ''-'') \<and> ds \<noteq> [] \<and> list_all isdigit ds
           \<and> v = clamp_long (if sg = ''-'' then - decimal ds else decimal ds)))
   \<and> strtol_check '' 5'' = Inr 5
   \<and> strtol_check ''+5'' = Inr 5
   \<and> strtol_check ''9223372036854775808'' = Inr LONG_MAX
   \<and> strtol_check ''-9223372036854775809'' = Inr LONG_MIN"
proof -
  have accept: "strtol_check (ws @ sg @ ds) =
                  Inr (clamp_long (if sg = ''-'' then - decimal ds else decimal ds))"
    if "list_all isspace ws" "sg = [] \<or> sg = ''+'' \<or> sg = ''-''" "ds \<noteq> []" "list_all isdigit ds"
    for ws sg ds
    using that strtol_decomposed [OF that] by (simp add: strtol_check_iff)
  have iff: "strtol_check s = Inr v \<longleftrightarrow>
        (\<exists>ws sg ds. s = ws @ sg @ ds \<and> list_all isspace ws
           \<and> (sg = [] \<or> sg = ''+'' \<or> sg = ''-'') \<and> ds \<noteq> [] \<and> list_all isdigit ds
           \<and> v = clamp_long (if sg = ''-'' then - decimal ds else decimal ds))"
    (is "?L \<longleftrightarrow> ?R")
  proof
    assume l: ?L
    then have ne: "s \<noteq> []" and rest: "snd (strtol s) = []" and v: "v = fst (strtol s)"
      by (simp_all add: strtol_check_iff)
    from strtol_accepts_decompose [OF ne rest] obtain ws sg ds where
      d: "s = ws @ sg @ ds" "list_all isspace ws" "sg = [] \<or> sg = ''+'' \<or> sg = ''-''"
         "ds \<noteq> []" "list_all isdigit ds"
      by blast
    have "strtol_check s = Inr (clamp_long (if sg = ''-'' then - decimal ds else decimal ds))"
      using accept [OF d(2-5)] d(1) by simp
    with l have "v = clamp_long (if sg = ''-'' then - decimal ds else decimal ds)" by simp
    with d show ?R by blast
  next
    assume ?R
    then show ?L using accept by blast
  qed
  have e1: "strtol_check '' 5'' = Inr 5"
    using accept [of "'' ''" "[]" "''5''"]
    by (simp add: isspace_def isdigit_def decimal_def digit_val_def clamp_long_def
                  LONG_MAX_def LONG_MIN_def)
  have e2: "strtol_check ''+5'' = Inr 5"
    using accept [of "[]" "''+''" "''5''"]
    by (simp add: isspace_def isdigit_def decimal_def digit_val_def clamp_long_def
                  LONG_MAX_def LONG_MIN_def)
  have e3: "strtol_check ''9223372036854775808'' = Inr LONG_MAX"
    using accept [of "[]" "[]" "''9223372036854775808''"]
    by (simp add: isspace_def isdigit_def decimal_def digit_val_def clamp_long_def
                  LONG_MAX_def LONG_MIN_def)
  have e4: "strtol_check ''-9223372036854775809'' = Inr LONG_MIN"
    using accept [of "[]" "''-''" "''9223372036854775809''"]
    by (simp add: isspace_def isdigit_def decimal_def digit_val_def clamp_long_def
                  LONG_MAX_def LONG_MIN_def)
  show ?thesis
    using strtol_check_reject_iff [of s] iff e1 e2 e3 e4 by (intro conjI) 
qed

theorem strtol_check_accepts_witness:
  "(\<exists>e. strtol_check ''12abc'' = Inl e) \<and> strtol_check ''-42'' = Inr (- 42)"
proof -
  have "snd (strtol ''12abc'') \<noteq> []"
    by (simp add: strtol_def isspace_def isdigit_def)
  with strtol_check_accepts [of "''12abc''" 0] have a: "\<exists>e. strtol_check ''12abc'' = Inl e"
    by blast
  have "\<exists>ws sg ds. ''-42'' = ws @ sg @ ds \<and> list_all isspace ws
           \<and> (sg = [] \<or> sg = ''+'' \<or> sg = ''-'') \<and> ds \<noteq> [] \<and> list_all isdigit ds
           \<and> (- 42 :: int) = clamp_long (if sg = ''-'' then - decimal ds else decimal ds)"
    by (rule exI [of _ "[]"], rule exI [of _ "''-''"], rule exI [of _ "''42''"])
       (simp add: isdigit_def decimal_def digit_val_def clamp_long_def LONG_MAX_def LONG_MIN_def)
  with strtol_check_accepts [of "''-42''" "- 42"] have "strtol_check ''-42'' = Inr (- 42)"
    by blast
  with a show ?thesis by simp
qed

subsection \<open>The branches of the option loop\<close>

text \<open>A branch that takes a value moves the cursor to that value.\<close>

lemma opt_max_stack_cursor:
  "opt_max_stack i args cfg = Inr (i', cfg') \<Longrightarrow> i' = i + 1 \<and> i' < length args"
  by (auto simp: opt_max_stack_def next_arg_def Let_def split: sum.splits if_splits)

lemma opt_gc_min_objects_cursor:
  "opt_gc_min_objects i args cfg = Inr (i', cfg') \<Longrightarrow> i' = i + 1 \<and> i' < length args"
  by (auto simp: opt_gc_min_objects_def next_arg_def Let_def split: sum.splits if_splits)

lemma opt_gc_growth_trigger_cursor:
  "opt_gc_growth_trigger F i args cfg = Inr (i', cfg') \<Longrightarrow> i' = i + 1 \<and> i' < length args"
  by (auto simp: opt_gc_growth_trigger_def next_arg_def Let_def
           split: sum.splits if_splits prod.splits)

lemma show_long_0: "show_long 0 = ''0''"
  by code_simp

lemma show_long_minus_1: "show_long (- 1) = ''-1''"
  by code_simp

lemma opt_max_stack_eq:
  assumes "i + 1 < length args"
  shows "opt_max_stack i args cfg =
           (case strtol_check (args ! (i + 1)) of
              Inl e \<Rightarrow> Inl e
            | Inr l \<Rightarrow>
                if l < 1
                then Inl (Exit EXIT_FAILURE []
                       (''ERROR: Invalid --max-stack value '' @ show_long l @ endl @ endl @ usage))
                else Inr (i + 1, cfg\<lparr>max_stack := word_of_int l\<rparr>))"
  using assms by (auto simp: opt_max_stack_def next_arg_def split: sum.splits)

lemma opt_gc_min_objects_eq:
  assumes "i + 1 < length args"
  shows "opt_gc_min_objects i args cfg =
           (case strtol_check (args ! (i + 1)) of
              Inl e \<Rightarrow> Inl e
            | Inr r \<Rightarrow>
                if r mod 2 ^ 32 = 0
                then Inl (Exit EXIT_FAILURE []
                       (''ERROR: Invalid --gc-min-objects value 0'' @ endl @ endl @ usage))
                else Inr (i + 1, cfg\<lparr>gc_min_objects := word_of_int r\<rparr>))"
proof -
  have l: "uint (word_of_int r :: 32 word) = r mod 2 ^ 32" for r
    by (simp add: uint_word_of_int)
  have small: "r mod 2 ^ 32 < 1 \<longleftrightarrow> r mod 2 ^ 32 = 0" for r :: int
    using pos_mod_sign [of "2 ^ 32" r] by auto
  have wm: "(word_of_int (r mod 4294967296) :: 32 word) = word_of_int r" for r
    using l [of r] word_of_int_uint [of "word_of_int r :: 32 word"] by simp
  show ?thesis
    using assms
    by (auto simp: opt_gc_min_objects_def next_arg_def Let_def l small wm show_long_0
             split: sum.splits)
qed

lemma opt_missing_value:
  assumes "i + 1 \<ge> length args"
  shows "opt_max_stack i args cfg =
           Inl (Exit EXIT_FAILURE [] (''Expected another commandline argument.'' @ endl))"
    and "opt_gc_min_objects i args cfg =
           Inl (Exit EXIT_FAILURE [] (''Expected another commandline argument.'' @ endl))"
    and "opt_gc_growth_trigger F i args cfg =
           Inl (Exit EXIT_FAILURE [] (''Expected another commandline argument.'' @ endl))"
  using assms
  by (simp_all add: opt_max_stack_def opt_gc_min_objects_def opt_gc_growth_trigger_def
                    next_arg_def)

text \<open>One turn of the option loop, by the token under the cursor.\<close>

lemma parse_loop_end:
  "\<not> i < length args \<Longrightarrow> parse_loop F args i cfg rem = Inr (cfg, rem)"
  by (subst parse_loop.simps) simp

lemma parse_loop_help:
  "i < length args \<Longrightarrow> args ! i = ''-h'' \<or> args ! i = ''--help'' \<Longrightarrow>
   parse_loop F args i cfg rem = Inl (Exit EXIT_SUCCESS usage [])"
  by (subst parse_loop.simps) auto

lemma parse_loop_max_stack:
  "i < length args \<Longrightarrow> args ! i = ''-s'' \<or> args ! i = ''--max-stack'' \<Longrightarrow>
   parse_loop F args i cfg rem =
     (case opt_max_stack i args cfg of
        Inl e \<Rightarrow> Inl e
      | Inr (i', cfg') \<Rightarrow> parse_loop F args (i' + 1) cfg' rem)"
  by (subst parse_loop.simps) auto

lemma parse_loop_gc_min_objects:
  "i < length args \<Longrightarrow> args ! i = ''--gc-min-objects'' \<Longrightarrow>
   parse_loop F args i cfg rem =
     (case opt_gc_min_objects i args cfg of
        Inl e \<Rightarrow> Inl e
      | Inr (i', cfg') \<Rightarrow> parse_loop F args (i' + 1) cfg' rem)"
  by (subst parse_loop.simps) auto

lemma parse_loop_gc_growth_trigger:
  "i < length args \<Longrightarrow> args ! i = ''--gc-growth-trigger'' \<Longrightarrow>
   parse_loop F args i cfg rem =
     (case opt_gc_growth_trigger F i args cfg of
        Inl e \<Rightarrow> Inl e
      | Inr (i', cfg') \<Rightarrow> parse_loop F args (i' + 1) cfg' rem)"
  by (subst parse_loop.simps) auto

lemma parse_loop_exec:
  "i < length args \<Longrightarrow> args ! i = ''-e'' \<or> args ! i = ''--exec'' \<Longrightarrow>
   parse_loop F args i cfg rem = parse_loop F args (i + 1) (cfg\<lparr>filename_is_code := True\<rparr>) rem"
  by (subst parse_loop.simps) auto

lemma parse_loop_debug_ast:
  "i < length args \<Longrightarrow> args ! i = ''--debug-ast'' \<Longrightarrow>
   parse_loop F args i cfg rem = parse_loop F args (i + 1) (cfg\<lparr>debug_ast := True\<rparr>) rem"
  by (subst parse_loop.simps) auto

lemma parse_loop_terminator:
  "i < length args \<Longrightarrow> args ! i = ''--'' \<Longrightarrow>
   parse_loop F args i cfg rem = Inr (cfg, rem @ drop (i + 1) args)"
  by (subst parse_loop.simps) auto

lemma parse_loop_positional:
  "i < length args \<Longrightarrow> \<not> is_option (args ! i) \<Longrightarrow>
   parse_loop F args i cfg rem = parse_loop F args (i + 1) cfg (rem @ [args ! i])"
  by (subst parse_loop.simps) (auto simp: is_option_def)

subsection \<open>The closed form of \<^verbatim>\<open>simplify_args\<close>\<close>

lemma cluster_tokens:
  "map (\<lambda>j. ''-'' @ substr arg j 1) [1 ..< length arg] = map (\<lambda>c. [CHR ''-'', c]) (tl arg)"
proof -
  have "substr arg j 1 = [arg ! j]" if "j < length arg" for j
    using that by (simp add: substr_def take_Suc_conv_app_nth flip: Cons_nth_drop_Suc)
  then have "map (\<lambda>j. ''-'' @ substr arg j 1) [1 ..< length arg]
             = map (\<lambda>j. [CHR ''-'', arg ! j]) [1 ..< length arg]"
    by (intro map_cong) auto
  also have "\<dots> = map (\<lambda>c. [CHR ''-'', c]) (map ((!) arg) [1 ..< length arg])"
    by (simp add: comp_def)
  also have "map ((!) arg) [1 ..< length arg] = drop 1 (take (length arg) arg)"
    by (rule map_nth_upt) simp
  finally show ?thesis by (simp add: drop_Suc)
qed

lemma spec_normalize_simps:
  "spec_normalize [] = []"
  "spec_normalize (''--'' # xs) = ''--'' # xs"
  "t \<noteq> ''--'' \<Longrightarrow> spec_normalize (t # xs) = expand_token t @ spec_normalize xs"
  by (simp_all add: spec_normalize_def)

lemma simplify_loop_closed:
  "i \<le> length argv \<Longrightarrow> simplify_loop argv i r = r @ spec_normalize (drop i argv)"
proof (induction argv i r rule: simplify_loop.induct)
  case (1 argv i r)
  show ?case
  proof (cases "i < length argv")
    case False
    then show ?thesis using "1.prems"
      by (subst simplify_loop.simps) (simp add: spec_normalize_simps)
  next
    case True
    let ?arg = "argv ! i"
    have dr: "drop i argv = ?arg # drop (i + 1) argv"
      using True by (simp add: Cons_nth_drop_Suc)
    have hd0: "?arg ! 0 = hd ?arg" if "length ?arg > 2"
      using that by (cases ?arg) auto
    consider (stop) "?arg = ''--''"
      | (cluster) "?arg \<noteq> ''--''" "is_cluster ?arg"
      | (plain) "?arg \<noteq> ''--''" "\<not> is_cluster ?arg"
      by blast
    then show ?thesis
    proof cases
      case stop
      then show ?thesis using True
        by (subst simplify_loop.simps) (simp add: dr spec_normalize_simps)
    next
      case cluster
      then have c: "length ?arg > 2 \<and> ?arg ! 0 = CHR ''-'' \<and> ?arg ! 1 \<noteq> CHR ''-''"
        using hd0 by (auto simp: is_cluster_def)
      have "simplify_loop argv i r = simplify_loop argv (i + 1)
              (r @ map (\<lambda>j. ''-'' @ substr ?arg j 1) [1 ..< length ?arg])"
        using True cluster(1) c by (subst simplify_loop.simps) (simp add: Let_def)
      also have "\<dots> = (r @ map (\<lambda>j. ''-'' @ substr ?arg j 1) [1 ..< length ?arg])
                       @ spec_normalize (drop (i + 1) argv)"
        using True cluster(1) c by (intro "1.IH"(1)) auto
      finally have "simplify_loop argv i r =
                      (r @ map (\<lambda>c. [CHR ''-'', c]) (tl ?arg)) @ spec_normalize (drop (i + 1) argv)"
        by (simp only: cluster_tokens)
      then show ?thesis
        using cluster by (simp add: dr spec_normalize_simps expand_token_def)
    next
      case plain
      then have c: "\<not> (length ?arg > 2 \<and> ?arg ! 0 = CHR ''-'' \<and> ?arg ! 1 \<noteq> CHR ''-'')"
        using hd0 by (auto simp: is_cluster_def)
      have "simplify_loop argv i r = simplify_loop argv (i + 1) (r @ [?arg])"
        using True plain(1) c by (subst simplify_loop.simps) (auto simp: Let_def)
      also have "\<dots> = (r @ [?arg]) @ spec_normalize (drop (i + 1) argv)"
        using True plain(1) c by (intro "1.IH"(2)) auto
      finally show ?thesis
        using plain by (simp add: dr spec_normalize_simps expand_token_def)
    qed
  qed
qed

lemma simplify_args_closed: "simplify_args (prog # xs) = spec_normalize xs"
  using simplify_loop_closed [of 1 "prog # xs" "[]"] by (simp add: simplify_args_def)

lemma simplify_args_no_args: "simplify_args [] = []"
  by (simp add: simplify_args_def simplify_loop.simps)

subsection \<open>The option loop and the terminator\<close>

lemma strtol_check_terminator: "\<exists>e. strtol_check ''--'' = Inl e"
  by (simp add: strtol_check_def strtol_def isspace_def isdigit_def)

lemma opt_same_token:
  assumes "i + 1 < length A" "i + 1 < length B" "A ! (i + 1) = B ! (i + 1)"
  shows "opt_max_stack i A cfg = opt_max_stack i B cfg"
    and "opt_gc_min_objects i A cfg = opt_gc_min_objects i B cfg"
    and "opt_gc_growth_trigger F i A cfg = opt_gc_growth_trigger F i B cfg"
  using assms
  by (simp_all add: opt_max_stack_def opt_gc_min_objects_def opt_gc_growth_trigger_def
                    next_arg_def)

lemma opt_value_not_terminator:
  assumes "i + 1 < length A"
  shows "opt_max_stack i A cfg = Inr (i', cfg') \<Longrightarrow> A ! (i + 1) \<noteq> ''--''"
    and "opt_gc_min_objects i A cfg = Inr (i', cfg') \<Longrightarrow> A ! (i + 1) \<noteq> ''--''"
    and "snd (strtod F (freed_c_str F ''--'')) \<noteq> [] \<or> freed_c_str F ''--'' = [] \<Longrightarrow> opt_gc_growth_trigger F i A cfg = Inr (i', cfg')
         \<Longrightarrow> A ! (i + 1) \<noteq> ''--''"
  using assms strtol_check_terminator
  by (auto simp: opt_max_stack_def opt_gc_min_objects_def opt_gc_growth_trigger_def
                 next_arg_def Let_def split: sum.splits prod.splits if_splits)

lemma after_terminator_simps:
  "after_terminator ys (Inl e) = Inl e"
  "after_terminator ys (Inr (cfg, r)) = Inr (cfg, r @ ys)"
  by (simp_all add: after_terminator_def)

lemma parse_loop_after_terminator:
  assumes reject: "snd (strtod F (freed_c_str F ''--'')) \<noteq> [] \<or> freed_c_str F ''--'' = []"
      and i: "i \<le> length ts"
  shows "parse_loop F (ts @ ''--'' # ys) i cfg rem =
           after_terminator ys (parse_loop F (ts @ [''--'']) i cfg rem)"
  using i
proof (induction "length ts - i" arbitrary: i cfg rem rule: less_induct)
  case less
  let ?A = "ts @ ''--'' # ys" and ?B = "ts @ [''--'']"
  let ?t = "?B ! i"
  have iA: "i < length ?A" and iB: "i < length ?B" using less.prems by simp_all
  have same: "?A ! j = ?B ! j" if "j \<le> length ts" for j
    using that by (simp add: nth_append)
  have tok: "?A ! i = ?t" using same less.prems by simp
  have last: "i < length ts" if "?t \<noteq> ''--''"
    using that less.prems by (cases "i = length ts") (simp_all add: nth_append)
  have IH: "parse_loop F ?A j c r = after_terminator ys (parse_loop F ?B j c r)"
    if "i < j" "j \<le> length ts" for j c r
    using that less.prems by (intro less.hyps) auto
  have valued: "(case R of Inl e \<Rightarrow> Inl e | Inr (i', cfg') \<Rightarrow> parse_loop F ?A (i' + 1) cfg' rem)
         = after_terminator ys
             (case R of Inl e \<Rightarrow> Inl e | Inr (i', cfg') \<Rightarrow> parse_loop F ?B (i' + 1) cfg' rem)"
    if "\<And>i' cfg'. R = Inr (i', cfg') \<Longrightarrow> i' = i + 1 \<and> ?B ! (i + 1) \<noteq> ''--''"
       "i < length ts"
    for R :: "exit + (nat \<times> 'a config)"
  proof (cases R)
    case (Inl e)
    then show ?thesis by (simp add: after_terminator_simps)
  next
    case (Inr p)
    obtain i' cfg' where p: "p = (i', cfg')" by (cases p)
    with Inr that(1) have i': "i' = i + 1" and nt: "?B ! (i + 1) \<noteq> ''--''" by auto
    have "i + 1 < length ts"
      using nt that(2) by (cases "i + 1 = length ts") (simp_all add: nth_append)
    then show ?thesis using Inr p i' IH [of "i + 2"] by simp
  qed
  consider (opt_h) "?t = ''-h'' \<or> ?t = ''--help''"
    | (opt_s) "?t = ''-s'' \<or> ?t = ''--max-stack''"
    | (opt_min) "?t = ''--gc-min-objects''"
    | (opt_growth) "?t = ''--gc-growth-trigger''"
    | (opt_e) "?t = ''-e'' \<or> ?t = ''--exec''"
    | (opt_debug) "?t = ''--debug-ast''"
    | (opt_stop) "?t = ''--''"
    | (other) "\<not> is_option ?t"
    unfolding is_option_def by blast
  then show ?case
  proof cases
    case opt_h
    then show ?thesis
      using iA iB tok by (simp add: parse_loop_help after_terminator_simps)
  next
    case opt_s
    then have lt: "i < length ts" by (intro last) auto
    then have nA: "i + 1 < length ?A" and nB: "i + 1 < length ?B" by simp_all
    have eq: "opt_max_stack i ?A cfg = opt_max_stack i ?B cfg"
      using lt by (intro opt_same_token(1) nA nB same) simp
    have "parse_loop F ?A i cfg rem =
            (case opt_max_stack i ?B cfg of
               Inl e \<Rightarrow> Inl e | Inr (i', cfg') \<Rightarrow> parse_loop F ?A (i' + 1) cfg' rem)"
      using opt_s iA tok eq by (simp add: parse_loop_max_stack)
    also have "\<dots> = after_terminator ys
            (case opt_max_stack i ?B cfg of
               Inl e \<Rightarrow> Inl e | Inr (i', cfg') \<Rightarrow> parse_loop F ?B (i' + 1) cfg' rem)"
      using opt_max_stack_cursor opt_value_not_terminator(1) [OF nB] lt
      by (intro valued) blast+
    also have "\<dots> = after_terminator ys (parse_loop F ?B i cfg rem)"
      using opt_s iB by (simp add: parse_loop_max_stack)
    finally show ?thesis .
  next
    case opt_min
    then have lt: "i < length ts" by (intro last) auto
    then have nA: "i + 1 < length ?A" and nB: "i + 1 < length ?B" by simp_all
    have eq: "opt_gc_min_objects i ?A cfg = opt_gc_min_objects i ?B cfg"
      using lt by (intro opt_same_token(2) nA nB same) simp
    have "parse_loop F ?A i cfg rem =
            (case opt_gc_min_objects i ?B cfg of
               Inl e \<Rightarrow> Inl e | Inr (i', cfg') \<Rightarrow> parse_loop F ?A (i' + 1) cfg' rem)"
      using opt_min iA tok eq by (simp add: parse_loop_gc_min_objects)
    also have "\<dots> = after_terminator ys
            (case opt_gc_min_objects i ?B cfg of
               Inl e \<Rightarrow> Inl e | Inr (i', cfg') \<Rightarrow> parse_loop F ?B (i' + 1) cfg' rem)"
      using opt_gc_min_objects_cursor opt_value_not_terminator(2) [OF nB] lt
      by (intro valued) blast+
    also have "\<dots> = after_terminator ys (parse_loop F ?B i cfg rem)"
      using opt_min iB by (simp add: parse_loop_gc_min_objects)
    finally show ?thesis .
  next
    case opt_growth
    then have lt: "i < length ts" by (intro last) auto
    then have nA: "i + 1 < length ?A" and nB: "i + 1 < length ?B" by simp_all
    have eq: "opt_gc_growth_trigger F i ?A cfg = opt_gc_growth_trigger F i ?B cfg"
      using lt by (intro opt_same_token(3) nA nB same) simp
    have "parse_loop F ?A i cfg rem =
            (case opt_gc_growth_trigger F i ?B cfg of
               Inl e \<Rightarrow> Inl e | Inr (i', cfg') \<Rightarrow> parse_loop F ?A (i' + 1) cfg' rem)"
      using opt_growth iA tok eq by (simp add: parse_loop_gc_growth_trigger)
    also have "\<dots> = after_terminator ys
            (case opt_gc_growth_trigger F i ?B cfg of
               Inl e \<Rightarrow> Inl e | Inr (i', cfg') \<Rightarrow> parse_loop F ?B (i' + 1) cfg' rem)"
      using opt_gc_growth_trigger_cursor opt_value_not_terminator(3) [OF nB reject] lt
      by (intro valued) blast+
    also have "\<dots> = after_terminator ys (parse_loop F ?B i cfg rem)"
      using opt_growth iB by (simp add: parse_loop_gc_growth_trigger)
    finally show ?thesis .
  next
    case opt_e
    then have lt: "i < length ts" by (intro last) auto
    show ?thesis
      using opt_e iA iB tok lt IH [of "i + 1"] by (simp add: parse_loop_exec)
  next
    case opt_debug
    then have lt: "i < length ts" by (intro last) auto
    show ?thesis
      using opt_debug iA iB tok lt IH [of "i + 1"] by (simp add: parse_loop_debug_ast)
  next
    case opt_stop
    have "?A = ?B @ ys" by simp
    then have "drop (i + 1) ?A = drop (i + 1) (?B @ ys)" by (rule arg_cong)
    also have "\<dots> = drop (i + 1) ?B @ ys"
      using iB by (subst drop_append) simp
    finally show ?thesis
      using opt_stop iA iB tok by (simp add: parse_loop_terminator after_terminator_simps)
  next
    case other
    then have "?t \<noteq> ''--''" by (auto simp: is_option_def)
    then have lt: "i < length ts" by (rule last)
    show ?thesis
      using other iA iB tok lt IH [of "i + 1"] by (simp add: parse_loop_positional)
  qed
qed

subsection \<open>The option loop on a prefix of the stream\<close>

lemma parse_loop_prefix:
  assumes "i \<le> length pre"
      and "parse_loop F pre i cfg rem = Inr (cfg', rem')"
      and "''--'' \<notin> set pre"
  shows "parse_loop F (pre @ post) i cfg rem = parse_loop F (pre @ post) (length pre) cfg' rem'"
  using assms(1,2)
proof (induction "length pre - i" arbitrary: i cfg rem rule: less_induct)
  case less
  let ?A = "pre @ post"
  show ?case
  proof (cases "i = length pre")
    case True
    then show ?thesis using less.prems(2) by (simp add: parse_loop_end)
  next
    case False
    then have lt: "i < length pre" using less.prems(1) by simp
    then have iA: "i < length ?A" by simp
    let ?t = "pre ! i"
    have tok: "?A ! i = ?t" using lt by (simp add: nth_append)
    have res: "parse_loop F pre i cfg rem = Inr (cfg', rem')" by (rule less.prems(2))
    have IH: "parse_loop F ?A j c r = parse_loop F ?A (length pre) cfg' rem'"
      if "i < j" "j \<le> length pre" "parse_loop F pre j c r = Inr (cfg', rem')" for j c r
      using that by (intro less.hyps) auto
    have valued: "(case Ra of Inl e \<Rightarrow> Inl e | Inr (i', c) \<Rightarrow> parse_loop F ?A (i' + 1) c rem)
                  = parse_loop F ?A (length pre) cfg' rem'"
      if "Ra = Rb"
         "(case Rb of Inl e \<Rightarrow> Inl e | Inr (i', c) \<Rightarrow> parse_loop F pre (i' + 1) c rem)
            = Inr (cfg', rem')"
         "\<And>i' c. Rb = Inr (i', c) \<Longrightarrow> i' = i + 1 \<and> i' < length pre"
      for Ra Rb :: "exit + (nat \<times> 'a config)"
    proof (cases Rb)
      case (Inl e)
      then show ?thesis using that(2) by simp
    next
      case (Inr p)
      obtain i' c where p: "p = (i', c)" by (cases p)
      with Inr that(3) have i': "i' = i + 1" "i + 1 < length pre" by auto
      have "parse_loop F pre (i + 2) c rem = Inr (cfg', rem')"
        using that(2) Inr p i' by simp
      then have "parse_loop F ?A (i + 2) c rem = parse_loop F ?A (length pre) cfg' rem'"
        using i' by (intro IH) auto
      then show ?thesis using that(1) Inr p i' by simp
    qed
    have next_same: "i + 1 < length ?A \<and> ?A ! (i + 1) = pre ! (i + 1)" if "i + 1 < length pre"
      using that by (simp add: nth_append)
    have nt: "?t \<noteq> ''--''" using assms(3) lt by (metis nth_mem)
    consider (opt_h) "?t = ''-h'' \<or> ?t = ''--help''"
      | (opt_s) "?t = ''-s'' \<or> ?t = ''--max-stack''"
      | (opt_min) "?t = ''--gc-min-objects''"
      | (opt_growth) "?t = ''--gc-growth-trigger''"
      | (opt_e) "?t = ''-e'' \<or> ?t = ''--exec''"
      | (opt_debug) "?t = ''--debug-ast''"
      | (other) "\<not> is_option ?t"
      using nt unfolding is_option_def by blast
    then show ?thesis
    proof cases
      case opt_h
      then show ?thesis using res lt by (simp add: parse_loop_help)
    next
      case opt_s
      have r: "(case opt_max_stack i pre cfg of
                  Inl e \<Rightarrow> Inl e | Inr (i', c) \<Rightarrow> parse_loop F pre (i' + 1) c rem)
               = Inr (cfg', rem')"
        using res opt_s lt by (simp add: parse_loop_max_stack)
      then have n: "i + 1 < length pre"
        using opt_missing_value(1) [of pre i cfg] by (cases "i + 1 < length pre") auto
      have "opt_max_stack i ?A cfg = opt_max_stack i pre cfg"
        using next_same [OF n] n by (intro opt_same_token(1)) auto
      then have "(case opt_max_stack i ?A cfg of
                  Inl e \<Rightarrow> Inl e | Inr (i', c) \<Rightarrow> parse_loop F ?A (i' + 1) c rem)
               = parse_loop F ?A (length pre) cfg' rem'"
        using r opt_max_stack_cursor by (intro valued) blast+
      then show ?thesis using opt_s iA tok by (simp add: parse_loop_max_stack)
    next
      case opt_min
      have r: "(case opt_gc_min_objects i pre cfg of
                  Inl e \<Rightarrow> Inl e | Inr (i', c) \<Rightarrow> parse_loop F pre (i' + 1) c rem)
               = Inr (cfg', rem')"
        using res opt_min lt by (simp add: parse_loop_gc_min_objects)
      then have n: "i + 1 < length pre"
        using opt_missing_value(2) [of pre i cfg] by (cases "i + 1 < length pre") auto
      have "opt_gc_min_objects i ?A cfg = opt_gc_min_objects i pre cfg"
        using next_same [OF n] n by (intro opt_same_token(2)) auto
      then have "(case opt_gc_min_objects i ?A cfg of
                  Inl e \<Rightarrow> Inl e | Inr (i', c) \<Rightarrow> parse_loop F ?A (i' + 1) c rem)
               = parse_loop F ?A (length pre) cfg' rem'"
        using r opt_gc_min_objects_cursor by (intro valued) blast+
      then show ?thesis using opt_min iA tok by (simp add: parse_loop_gc_min_objects)
    next
      case opt_growth
      have r: "(case opt_gc_growth_trigger F i pre cfg of
                  Inl e \<Rightarrow> Inl e | Inr (i', c) \<Rightarrow> parse_loop F pre (i' + 1) c rem)
               = Inr (cfg', rem')"
        using res opt_growth lt by (simp add: parse_loop_gc_growth_trigger)
      then have n: "i + 1 < length pre"
        using opt_missing_value(3) [of pre i F cfg] by (cases "i + 1 < length pre") auto
      have "opt_gc_growth_trigger F i ?A cfg = opt_gc_growth_trigger F i pre cfg"
        using next_same [OF n] n by (intro opt_same_token(3)) auto
      then have "(case opt_gc_growth_trigger F i ?A cfg of
                  Inl e \<Rightarrow> Inl e | Inr (i', c) \<Rightarrow> parse_loop F ?A (i' + 1) c rem)
               = parse_loop F ?A (length pre) cfg' rem'"
        using r opt_gc_growth_trigger_cursor by (intro valued) blast+
      then show ?thesis using opt_growth iA tok by (simp add: parse_loop_gc_growth_trigger)
    next
      case opt_e
      then show ?thesis
        using res lt iA tok IH [of "i + 1"] by (simp add: parse_loop_exec)
    next
      case opt_debug
      then show ?thesis
        using res lt iA tok IH [of "i + 1"] by (simp add: parse_loop_debug_ast)
    next
      case other
      then show ?thesis
        using res lt iA tok IH [of "i + 1"] by (simp add: parse_loop_positional)
    qed
  qed
qed

subsection \<open>The integer options\<close>

lemma parse_loop_filename:
  "parse_loop F args i cfg rem = Inr (cfg', rem') \<Longrightarrow> filename cfg' = filename cfg"
proof (induction F args i cfg rem rule: parse_loop.induct)
  case (1 F args i cfg rem)
  show ?case
  proof (cases "i < length args")
    case False
    then show ?thesis using "1.prems" by (simp add: parse_loop_end)
  next
    case True
    let ?t = "args ! i"
    consider (opt_h) "?t = ''-h'' \<or> ?t = ''--help''"
      | (opt_s) "?t = ''-s'' \<or> ?t = ''--max-stack''"
      | (opt_min) "?t = ''--gc-min-objects''"
      | (opt_growth) "?t = ''--gc-growth-trigger''"
      | (opt_e) "?t = ''-e'' \<or> ?t = ''--exec''"
      | (opt_debug) "?t = ''--debug-ast''"
      | (opt_stop) "?t = ''--''"
      | (other) "\<not> is_option ?t"
      unfolding is_option_def by blast
    then show ?thesis
    proof cases
      case opt_h
      then show ?thesis using "1.prems" True by (simp add: parse_loop_help)
    next
      case opt_s
      then obtain i' c where r: "opt_max_stack i args cfg = Inr (i', c)"
        and l: "parse_loop F args (i' + 1) c rem = Inr (cfg', rem')"
        using "1.prems" True by (auto simp: parse_loop_max_stack split: sum.splits)
      have "filename c = filename cfg"
        using r by (auto simp: opt_max_stack_def split: sum.splits if_splits prod.splits)
      moreover have "filename cfg' = filename c"
        using True opt_s r l by (intro "1.IH"(1) [of ?t _ i' c]) auto
      ultimately show ?thesis by simp
    next
      case opt_min
      then obtain i' c where r: "opt_gc_min_objects i args cfg = Inr (i', c)"
        and l: "parse_loop F args (i' + 1) c rem = Inr (cfg', rem')"
        using "1.prems" True by (auto simp: parse_loop_gc_min_objects split: sum.splits)
      have "filename c = filename cfg"
        using r by (auto simp: opt_gc_min_objects_def Let_def
                         split: sum.splits if_splits prod.splits)
      moreover have "filename cfg' = filename c"
        using True opt_min r l by (intro "1.IH"(2) [of ?t _ i' c]) auto
      ultimately show ?thesis by simp
    next
      case opt_growth
      then obtain i' c where r: "opt_gc_growth_trigger F i args cfg = Inr (i', c)"
        and l: "parse_loop F args (i' + 1) c rem = Inr (cfg', rem')"
        using "1.prems" True by (auto simp: parse_loop_gc_growth_trigger split: sum.splits)
      have "filename c = filename cfg"
        using r by (auto simp: opt_gc_growth_trigger_def Let_def
                         split: sum.splits if_splits prod.splits)
      moreover have "filename cfg' = filename c"
        using True opt_growth r l by (intro "1.IH"(3) [of ?t _ i' c]) auto
      ultimately show ?thesis by simp
    next
      case opt_e
      then have "parse_loop F args (i + 1) (cfg\<lparr>filename_is_code := True\<rparr>) rem = Inr (cfg', rem')"
        using "1.prems" True by (simp add: parse_loop_exec)
      then have "filename cfg' = filename (cfg\<lparr>filename_is_code := True\<rparr>)"
        using True opt_e by (intro "1.IH"(4) [of ?t]) auto
      then show ?thesis by simp
    next
      case opt_debug
      then have "parse_loop F args (i + 1) (cfg\<lparr>debug_ast := True\<rparr>) rem = Inr (cfg', rem')"
        using "1.prems" True by (simp add: parse_loop_debug_ast)
      then have "filename cfg' = filename (cfg\<lparr>debug_ast := True\<rparr>)"
        using True opt_debug by (intro "1.IH"(5) [of ?t]) auto
      then show ?thesis by simp
    next
      case opt_stop
      then show ?thesis using "1.prems" True by (simp add: parse_loop_terminator)
    next
      case other
      then have "parse_loop F args (i + 1) cfg (rem @ [?t]) = Inr (cfg', rem')"
        using "1.prems" True by (simp add: parse_loop_positional)
      then show ?thesis
        using True other by (intro "1.IH"(6) [of ?t]) (auto simp: is_option_def)
    qed
  qed
qed

lemma strtol_check_examples:
  "strtol_check ''4294967296'' = Inr 4294967296"
  "strtol_check ''-1'' = Inr (- 1)"
  "strtol_check ''0'' = Inr 0"
  "strtol_check ''5'' = Inr 5"
  "strtol_check ''abc'' =
     Inl (Exit EXIT_FAILURE []
           (''ERROR: Invalid integer '' @ dquote @ ''abc'' @ dquote @ endl @ endl @ usage))"
  by (simp_all add: strtol_check_def strtol_def isspace_def isdigit_def decimal_def digit_val_def
        clamp_long_def LONG_MAX_def LONG_MIN_def)

lemma one_option_with_value:
  "simplify_args [''jsonnet'', ''--max-stack'', ''4294967296''] = [''--max-stack'', ''4294967296'']"
  "simplify_args [''jsonnet'', ''--max-stack'', ''-1''] = [''--max-stack'', ''-1'']"
  "simplify_args [''jsonnet'', ''--gc-min-objects'', ''-1''] = [''--gc-min-objects'', ''-1'']"
  by (simp_all add: simplify_args_closed spec_normalize_simps expand_token_def is_cluster_def)

text \<open>Claim C3: a token after \<^verbatim>\<open>-s\<close> / \<^verbatim>\<open>--max-stack\<close> that is a well-formed integer
  of value at least 1 is stored as max-stack and passed unchanged to the execution; any
  other token ends the process with usage on standard error and the failure status. What
  the code does on \<^verbatim>\<open>jsonnet --max-stack 4294967296\<close>: the token is a well-formed integer
  and its value \<open>2 ^ 32\<close> is at least 1, so the option is accepted; the assignment
  \<^verbatim>\<open>max_stack = l\<close> converts the \<^verbatim>\<open>long\<close> to \<^verbatim>\<open>unsigned\<close>, and the pipeline runs with
  \<open>max_stack = 0\<close>. (The lemmas \<open>max_stack_option\<close> and \<open>max_stack_examples\<close> below give the
  branch in general and on the tokens \<open>0\<close>, \<open>-1\<close>, \<open>abc\<close> and \<open>5\<close>.)\<close>

theorem max_stack_wraps_to_zero:
  "main F W [''jsonnet'', ''--max-stack'', ''4294967296'']
     = run W ((init_config F)\<lparr>max_stack := 0\<rparr>)"
proof -
  have "parse_options F [''--max-stack'', ''4294967296''] = Inr ((init_config F)\<lparr>max_stack := 0\<rparr>)"
    by (simp add: parse_options_def parse_loop_max_stack opt_max_stack_eq strtol_check_examples
                  parse_loop_end check_filename_def init_config_def)
  then show ?thesis by (simp add: main_def one_option_with_value)
qed

lemma max_stack_option:
  assumes "flag = ''-s'' \<or> flag = ''--max-stack''"
  shows "parse_loop F (pre @ flag # t # post) (length pre) cfg rem =
     (if t = [] \<or> snd (strtol t) \<noteq> []
      then Inl (Exit EXIT_FAILURE []
             (''ERROR: Invalid integer '' @ dquote @ t @ dquote @ endl @ endl @ usage))
      else if fst (strtol t) < 1
      then Inl (Exit EXIT_FAILURE []
             (''ERROR: Invalid --max-stack value '' @ show_long (fst (strtol t)) @ endl @ endl
              @ usage))
      else parse_loop F (pre @ flag # t # post) (length pre + 2)
             (cfg\<lparr>max_stack := word_of_int (fst (strtol t))\<rparr>) rem)"
proof -
  let ?args = "pre @ flag # t # post"
  have i: "length pre < length ?args" "?args ! length pre = flag"
    and n: "length pre + 1 < length ?args" "?args ! (length pre + 1) = t"
    by (simp_all add: nth_append)
  have "parse_loop F ?args (length pre) cfg rem =
          (case opt_max_stack (length pre) ?args cfg of
             Inl e \<Rightarrow> Inl e | Inr (i', cfg') \<Rightarrow> parse_loop F ?args (i' + 1) cfg' rem)"
    using assms i by (intro parse_loop_max_stack) auto
  then show ?thesis
    unfolding opt_max_stack_eq [OF n(1)] n(2)
    by (auto simp: strtol_check_def split: prod.splits)
qed

lemma gc_min_objects_option:
  "parse_loop F (pre @ ''--gc-min-objects'' # t # post) (length pre) cfg rem =
     (if t = [] \<or> snd (strtol t) \<noteq> []
      then Inl (Exit EXIT_FAILURE []
             (''ERROR: Invalid integer '' @ dquote @ t @ dquote @ endl @ endl @ usage))
      else if fst (strtol t) mod 2 ^ 32 = 0
      then Inl (Exit EXIT_FAILURE []
             (''ERROR: Invalid --gc-min-objects value 0'' @ endl @ endl @ usage))
      else parse_loop F (pre @ ''--gc-min-objects'' # t # post) (length pre + 2)
             (cfg\<lparr>gc_min_objects := word_of_int (fst (strtol t))\<rparr>) rem)"
proof -
  let ?args = "pre @ ''--gc-min-objects'' # t # post"
  have i: "length pre < length ?args" "?args ! length pre = ''--gc-min-objects''"
    and n: "length pre + 1 < length ?args" "?args ! (length pre + 1) = t"
    by (simp_all add: nth_append)
  have "parse_loop F ?args (length pre) cfg rem =
          (case opt_gc_min_objects (length pre) ?args cfg of
             Inl e \<Rightarrow> Inl e | Inr (i', cfg') \<Rightarrow> parse_loop F ?args (i' + 1) cfg' rem)"
    using i by (intro parse_loop_gc_min_objects) auto
  then show ?thesis
    unfolding opt_gc_min_objects_eq [OF n(1)] n(2)
    by (auto simp: strtol_check_def split: prod.splits)
qed

lemma unsigned_of_long_in_range:
  "0 \<le> l \<Longrightarrow> l < 2 ^ 32 \<Longrightarrow> uint (word_of_int l :: 32 word) = l"
  by (simp add: uint_word_of_int)

lemma max_stack_examples:
  "parse_options F [''--max-stack'', ''0''] =
     Inl (Exit EXIT_FAILURE [] (''ERROR: Invalid --max-stack value 0'' @ endl @ endl @ usage))"
  "parse_options F [''--max-stack'', ''-1''] =
     Inl (Exit EXIT_FAILURE [] (''ERROR: Invalid --max-stack value -1'' @ endl @ endl @ usage))"
  "parse_options F [''--max-stack'', ''abc''] =
     Inl (Exit EXIT_FAILURE []
           (''ERROR: Invalid integer '' @ dquote @ ''abc'' @ dquote @ endl @ endl @ usage))"
  "parse_options F [''--max-stack'', ''5''] = Inr ((init_config F)\<lparr>max_stack := 5\<rparr>)"
  by (simp_all add: parse_options_def parse_loop_max_stack opt_max_stack_eq strtol_check_examples
                  parse_loop_end check_filename_def init_config_def show_long_0 show_long_minus_1)

theorem max_stack_wraps_to_zero_witness:
  "main integer_platform echo_world [''jsonnet'', ''--max-stack'', ''4294967296'']
     = \<lparr> exit_code = EXIT_SUCCESS, out = ''{}'' @ endl, err = [],
         calls = [CallParse ''<stdin>'' ''{}'', CallStaticAnalysis ''{}'',
                  CallVmExecute ''{}'' 0 1000 2] \<rparr>"
  using max_stack_wraps_to_zero [of integer_platform echo_world]
  by (simp add: run_def read_input_def init_config_def integer_platform_def echo_world_def
                  c_str_def)

text \<open>Claim C1: a well-formed integer after \<^verbatim>\<open>--gc-min-objects\<close> whose value is below 1
  ends the process with usage on standard error and the failure status, a value of at least
  1 is stored, and the double assignment changes nothing: the same contract as
  \<^verbatim>\<open>--max-stack\<close>. What the code does on \<^verbatim>\<open>jsonnet --gc-min-objects -1\<close>: the
  declaration \<^verbatim>\<open>long l = gc_min_objects = strtol_check(...)\<close> stores \<open>-1\<close> in the
  \<^verbatim>\<open>unsigned\<close> variable first, so \<open>l\<close> is \<open>4294967295\<close>, the test \<open>l < 1\<close> fails and the
  pipeline runs with \<open>gc_min_objects = 4294967295\<close>; \<^verbatim>\<open>jsonnet --max-stack -1\<close> is
  refused. (The lemma \<open>gc_min_objects_option\<close> above gives the branch in general.)\<close>

theorem gc_min_objects_accepts_negative:
  "main F W [''jsonnet'', ''--gc-min-objects'', ''-1'']
     = run W ((init_config F)\<lparr>gc_min_objects := 4294967295\<rparr>)
   \<and> main F W [''jsonnet'', ''--max-stack'', ''-1'']
     = \<lparr> exit_code = EXIT_FAILURE, out = [],
         err = ''ERROR: Invalid --max-stack value -1'' @ endl @ endl @ usage, calls = [] \<rparr>"
proof -
  have w: "(word_of_int (- 1) :: 32 word) = 4294967295" by simp
  have "parse_options F [''--gc-min-objects'', ''-1'']
          = Inr ((init_config F)\<lparr>gc_min_objects := 4294967295\<rparr>)"
    by (simp add: parse_options_def parse_loop_gc_min_objects opt_gc_min_objects_eq
                  strtol_check_examples parse_loop_end check_filename_def init_config_def)
  then show ?thesis
    by (simp add: main_def one_option_with_value max_stack_examples)
qed

theorem gc_min_objects_accepts_negative_witness:
  "main integer_platform echo_world [''jsonnet'', ''--gc-min-objects'', ''-1'']
     = \<lparr> exit_code = EXIT_SUCCESS, out = ''{}'' @ endl, err = [],
         calls = [CallParse ''<stdin>'' ''{}'', CallStaticAnalysis ''{}'',
                  CallVmExecute ''{}'' 500 4294967295 2] \<rparr>"
  using gc_min_objects_accepts_negative [of integer_platform echo_world]
  by (simp add: run_def read_input_def init_config_def integer_platform_def echo_world_def
                  c_str_def)

subsection \<open>The positional arguments\<close>

text \<open>Claim C6. After the loop, with the positional arguments collected: two or more give
  the error that the filename is already specified; none with \<^verbatim>\<open>-e\<close> gives the error that
  a filename is needed; none without \<^verbatim>\<open>-e\<close> leaves the filename \<open>''-''\<close>, standard input;
  one is the filename. The two errors end the process with the failure status before any
  collaborator is called, and the pipeline is reached only with at most one positional
  argument. This holds whatever the order of the options: it depends on the stream only
  through the result of the loop.\<close>

theorem positional_arguments:
  assumes "parse_loop F (simplify_args argv) 0 (init_config F) [] = Inr (cfg, remaining_args)"
  shows "(length remaining_args \<ge> 2 \<longrightarrow>
            main F W argv =
              \<lparr> exit_code = EXIT_FAILURE, out = [],
                err = ''ERROR: Filename already specified as '' @ dquote @ remaining_args ! 0
                      @ dquote @ endl @ endl @ usage,
                calls = [] \<rparr>)
       \<and> (remaining_args = [] \<and> filename_is_code cfg \<longrightarrow>
            main F W argv =
              \<lparr> exit_code = EXIT_FAILURE, out = [],
                err = ''ERROR: Must give filename when using -e, --exec'' @ endl @ endl @ usage,
                calls = [] \<rparr>)
       \<and> (remaining_args = [] \<and> \<not> filename_is_code cfg \<longrightarrow>
            main F W argv = run W cfg \<and> filename cfg = ''-'')
       \<and> (length remaining_args = 1 \<longrightarrow>
            main F W argv = run W (cfg\<lparr>filename := remaining_args ! 0\<rparr>))
       \<and> ((\<exists>c. parse_options F (simplify_args argv) = Inr c) \<longrightarrow> length remaining_args \<le> 1)"
proof -
  have po: "parse_options F (simplify_args argv) = check_filename cfg remaining_args"
    using assms by (simp add: parse_options_def)
  have fn: "filename cfg = ''-''"
    using parse_loop_filename [OF assms] by (simp add: init_config_def)
  have many: "main F W argv =
              \<lparr> exit_code = EXIT_FAILURE, out = [],
                err = ''ERROR: Filename already specified as '' @ dquote @ remaining_args ! 0
                      @ dquote @ endl @ endl @ usage,
                calls = [] \<rparr>"
    if "length remaining_args \<ge> 2"
    using that by (auto simp: main_def po check_filename_def)
  have none_code: "main F W argv =
              \<lparr> exit_code = EXIT_FAILURE, out = [],
                err = ''ERROR: Must give filename when using -e, --exec'' @ endl @ endl @ usage,
                calls = [] \<rparr>"
    if "remaining_args = []" "filename_is_code cfg"
    using that by (simp add: main_def po check_filename_def)
  have none: "main F W argv = run W cfg"
    if "remaining_args = []" "\<not> filename_is_code cfg"
    using that by (simp add: main_def po check_filename_def)
  have one: "main F W argv = run W (cfg\<lparr>filename := remaining_args ! 0\<rparr>)"
    if "length remaining_args = 1"
    using that by (simp add: main_def po check_filename_def)
  have reach: "length remaining_args \<le> 1" if "check_filename cfg remaining_args = Inr c" for c
    using that by (cases "length remaining_args \<le> 1") (simp_all add: check_filename_def)
  show ?thesis
    using po fn many none_code none one reach by (intro conjI impI) auto
qed

lemma simplify_args_plain:
  "\<forall>t \<in> set xs. t \<noteq> ''--'' \<and> \<not> is_cluster t \<Longrightarrow> simplify_args (prog # xs) = xs"
  by (induction xs) (simp_all add: simplify_args_closed spec_normalize_simps expand_token_def)

theorem positional_arguments_witness:
  "main integer_platform echo_world [''jsonnet'', ''foo.jsonnet'', ''--exec'', ''bar.jsonnet''] =
     \<lparr> exit_code = EXIT_FAILURE, out = [],
       err = ''ERROR: Filename already specified as '' @ dquote @ ''foo.jsonnet''
             @ dquote @ endl @ endl @ usage,
       calls = [] \<rparr>
   \<and> main integer_platform echo_world [''jsonnet'', ''--exec'', ''foo.jsonnet'', ''bar.jsonnet''] =
     \<lparr> exit_code = EXIT_FAILURE, out = [],
       err = ''ERROR: Filename already specified as '' @ dquote @ ''foo.jsonnet''
             @ dquote @ endl @ endl @ usage,
       calls = [] \<rparr>"
proof -
  let ?F = integer_platform
  have n1: "simplify_args [''jsonnet'', ''foo.jsonnet'', ''--exec'', ''bar.jsonnet'']
              = [''foo.jsonnet'', ''--exec'', ''bar.jsonnet'']"
    and n2: "simplify_args [''jsonnet'', ''--exec'', ''foo.jsonnet'', ''bar.jsonnet'']
              = [''--exec'', ''foo.jsonnet'', ''bar.jsonnet'']"
    by (simp_all add: simplify_args_plain is_cluster_def)
  have l1: "parse_loop ?F [''foo.jsonnet'', ''--exec'', ''bar.jsonnet''] 0 (init_config ?F) []
              = Inr ((init_config ?F)\<lparr>filename_is_code := True\<rparr>, [''foo.jsonnet'', ''bar.jsonnet''])"
    by (simp add: parse_loop_positional parse_loop_exec parse_loop_end is_option_def)
  have l2: "parse_loop ?F [''--exec'', ''foo.jsonnet'', ''bar.jsonnet''] 0 (init_config ?F) []
              = Inr ((init_config ?F)\<lparr>filename_is_code := True\<rparr>, [''foo.jsonnet'', ''bar.jsonnet''])"
    by (simp add: parse_loop_positional parse_loop_exec parse_loop_end is_option_def)
  show ?thesis
    using positional_arguments [of ?F "[''jsonnet'', ''foo.jsonnet'', ''--exec'', ''bar.jsonnet'']"
            "(init_config ?F)\<lparr>filename_is_code := True\<rparr>" "[''foo.jsonnet'', ''bar.jsonnet'']"
            echo_world]
          positional_arguments [of ?F "[''jsonnet'', ''--exec'', ''foo.jsonnet'', ''bar.jsonnet'']"
            "(init_config ?F)\<lparr>filename_is_code := True\<rparr>" "[''foo.jsonnet'', ''bar.jsonnet'']"
            echo_world]
    by (simp add: n1 n2 l1 l2)
qed

subsection \<open>The syntax-tree dump\<close>

text \<open>Claim C8. With \<^verbatim>\<open>--debug-ast\<close> set, once the input has been read and the parser
  has returned a tree (for the C string of the input, line 193), the driver writes the unparsed tree and a newline to standard output
  and ends with the success status; the parser and the unparser are the only collaborators
  called, neither the static analysis nor the execution.\<close>

theorem debug_ast_only_unparses:
  assumes "parse_options F (simplify_args argv) = Inr cfg"
      and "debug_ast cfg"
      and "read_input W cfg = Inr (fname, input)"
      and "jsonnet_parse W fname (c_str input) = Inr expr"
  shows "run W cfg =
           \<lparr> exit_code = EXIT_SUCCESS, out = jsonnet_unparse_jsonnet W expr @ endl, err = [],
             calls = [CallParse fname (c_str input), CallUnparse expr] \<rparr>
       \<and> main F W argv = run W cfg"
  using assms by (simp add: run_def main_def)

theorem debug_ast_only_unparses_witness:
  "main integer_platform echo_world [''jsonnet'', ''--debug-ast''] =
     \<lparr> exit_code = EXIT_SUCCESS, out = ''{}'' @ endl, err = [],
       calls = [CallParse ''<stdin>'' ''{}'', CallUnparse ''{}''] \<rparr>"
proof -
  let ?cfg = "(init_config integer_platform)\<lparr>debug_ast := True\<rparr>"
  have n: "simplify_args [''jsonnet'', ''--debug-ast''] = [''--debug-ast'']"
    by (simp add: simplify_args_plain is_cluster_def)
  have p: "parse_options integer_platform [''--debug-ast''] = Inr ?cfg"
    by (simp add: parse_options_def parse_loop_debug_ast parse_loop_end check_filename_def
                  init_config_def)
  have d: "debug_ast ?cfg" by simp
  have r: "read_input echo_world ?cfg = Inr (''<stdin>'', ''{}'')"
    by (simp add: read_input_def init_config_def echo_world_def)
  have c: "c_str ''{}'' = ''{}''" by (simp add: c_str_def)
  have j: "jsonnet_parse echo_world ''<stdin>'' (c_str ''{}'') = Inr ''{}''"
    by (simp add: echo_world_def c)
  show ?thesis
    using debug_ast_only_unparses [of integer_platform "[''jsonnet'', ''--debug-ast'']" ?cfg
            echo_world "''<stdin>''" "''{}''" "''{}''"] n p d r j
    by (simp add: echo_world_def c)
qed

subsection \<open>The terminator and the expansion of clusters\<close>

text \<open>Claim C4. In an argument list with the terminator \<open>''--''\<close>, the normaliser copies the
  first \<open>''--''\<close> and every argument after it unchanged. In the option loop, a \<open>''--''\<close> under
  the cursor ends the loop and appends every token after it to the positional arguments,
  unchanged and in order; and over a whole stream, the tokens after a \<open>''--''\<close> change the
  result of the loop in one way only: when the loop ends without an exit they are the last
  positional arguments. (A \<open>''--''\<close> that follows \<^verbatim>\<open>--gc-growth-trigger\<close> is the value
  of that option, read by \<^verbatim>\<open>strtod\<close> through the pointer of line 126: the branch is
  assumed to refuse what it reads there, as it does when the two characters are read
  intact, since \<^verbatim>\<open>strtod\<close> converts nothing of them.)\<close>

theorem terminator_preserves_rest:
  assumes "''--'' \<notin> set xs"
      and "snd (strtod F (freed_c_str F ''--'')) \<noteq> [] \<or> freed_c_str F ''--'' = []"
  shows "simplify_args (prog # xs @ ''--'' # ys) = simplify_args (prog # xs) @ ''--'' # ys
       \<and> parse_loop F (ts @ ''--'' # ys) (length ts) cfg rem = Inr (cfg, rem @ ys)
       \<and> parse_loop F (ts @ ''--'' # ys) 0 cfg rem =
           (case parse_loop F (ts @ [''--'']) 0 cfg rem of
              Inl e \<Rightarrow> Inl e
            | Inr (cfg', remaining_args) \<Rightarrow> Inr (cfg', remaining_args @ ys))"
proof -
  have tw: "takeWhile (\<lambda>t. t \<noteq> ''--'') (xs @ ''--'' # ys) = xs"
           "dropWhile (\<lambda>t. t \<noteq> ''--'') (xs @ ''--'' # ys) = ''--'' # ys"
           "takeWhile (\<lambda>t. t \<noteq> ''--'') xs = xs"
           "dropWhile (\<lambda>t. t \<noteq> ''--'') xs = []"
    using assms(1) by (induction xs) auto
  have norm: "simplify_args (prog # xs @ ''--'' # ys) = simplify_args (prog # xs) @ ''--'' # ys"
    unfolding simplify_args_closed spec_normalize_def tw by simp
  have here: "parse_loop F (ts @ ''--'' # ys) (length ts) cfg rem = Inr (cfg, rem @ ys)"
    by (simp add: parse_loop_terminator)
  have whole: "parse_loop F (ts @ ''--'' # ys) 0 cfg rem =
           (case parse_loop F (ts @ [''--'']) 0 cfg rem of
              Inl e \<Rightarrow> Inl e
            | Inr (cfg', remaining_args) \<Rightarrow> Inr (cfg', remaining_args @ ys))"
    using parse_loop_after_terminator [OF assms(2), of 0 ts ys cfg rem]
    by (simp add: after_terminator_def)
  show ?thesis using norm here whole by (intro conjI)
qed

theorem terminator_preserves_rest_witness:
  "simplify_args [''jsonnet'', ''-ab'', ''--'', ''-cd'', ''--help'']
     = [''-a'', ''-b'', ''--'', ''-cd'', ''--help'']
   \<and> parse_loop integer_platform [''-a'', ''-b'', ''--'', ''-cd'', ''--help''] 0
       (init_config integer_platform) []
     = Inr (init_config integer_platform, [''-a'', ''-b'', ''-cd'', ''--help''])"
proof -
  let ?F = integer_platform
  have a: "''--'' \<notin> set [''-ab'']" by simp
  have b: "snd (strtod ?F (freed_c_str ?F ''--'')) \<noteq> [] \<or> freed_c_str ?F ''--'' = []"
    by (simp add: integer_platform_def strtol_def isspace_def isdigit_def)
  note t = terminator_preserves_rest [OF a b, of "''jsonnet''" "[''-cd'', ''--help'']"
             "[''-a'', ''-b'']" "init_config ?F" "[]"]
  have n: "simplify_args [''jsonnet'', ''-ab''] = [''-a'', ''-b'']"
    by (simp add: simplify_args_closed spec_normalize_simps expand_token_def is_cluster_def)
  have l: "parse_loop ?F ([''-a'', ''-b''] @ [''--'']) 0 (init_config ?F) []
             = Inr (init_config ?F, [''-a'', ''-b''])"
    by (simp add: parse_loop_positional parse_loop_terminator is_option_def)
  from t n have "simplify_args [''jsonnet'', ''-ab'', ''--'', ''-cd'', ''--help'']
     = [''-a'', ''-b'', ''--'', ''-cd'', ''--help'']" by simp
  moreover from t l have "parse_loop ?F [''-a'', ''-b'', ''--'', ''-cd'', ''--help''] 0
       (init_config ?F) [] = Inr (init_config ?F, [''-a'', ''-b'', ''-cd'', ''--help''])"
    by simp
  ultimately show ?thesis by simp
qed

text \<open>Claim C5, as stated: every token of length above 2 that starts with one dash is
  expanded. It fails after the terminator: \<^verbatim>\<open>jsonnet -- -abc\<close> keeps \<open>''-abc''\<close>.\<close>

theorem cluster_after_terminator_kept:
  "simplify_args [''jsonnet'', ''--'', ''-abc''] = [''--'', ''-abc'']
   \<and> simplify_args [''jsonnet'', ''--'', ''-abc''] \<noteq> concat (map expand_token [''--'', ''-abc''])"
  by (simp add: simplify_args_closed spec_normalize_simps expand_token_def is_cluster_def)

text \<open>Claim C5, amended. The normaliser is a function of the argument list. Of the tokens
  before the first \<open>''--''\<close>, each one of length above 2 whose first character is a dash
  and whose second is not is replaced by one token per character after the dash, a dash
  followed by that character, in order (\<open>''-abc''\<close> gives \<open>''-a''\<close>, \<open>''-b''\<close>, \<open>''-c''\<close>),
  and every other one is kept: a long option, an option of two characters, the lone dash, a
  plain value. The first \<open>''--''\<close> and the tokens after it are kept unchanged.\<close>

theorem cluster_expansion:
  "simplify_args (prog # xs) =
     concat (map expand_token (takeWhile (\<lambda>t. t \<noteq> ''--'') xs)) @ dropWhile (\<lambda>t. t \<noteq> ''--'') xs
   \<and> (''--'' \<notin> set xs \<longrightarrow> simplify_args (prog # xs) = concat (map expand_token xs))
   \<and> (length t > 2 \<and> hd t = CHR ''-'' \<and> t ! 1 \<noteq> CHR ''-'' \<longrightarrow>
        expand_token t = map (\<lambda>c. [CHR ''-'', c]) (tl t))
   \<and> (\<not> (length t > 2 \<and> hd t = CHR ''-'' \<and> t ! 1 \<noteq> CHR ''-'') \<longrightarrow> expand_token t = [t])
   \<and> expand_token ''-abc'' = [''-a'', ''-b'', ''-c'']
   \<and> expand_token ''--max-stack'' = [''--max-stack'']
   \<and> expand_token ''-s'' = [''-s'']
   \<and> expand_token ''-'' = [''-'']
   \<and> expand_token ''file.jsonnet'' = [''file.jsonnet'']"
proof -
  have all: "takeWhile (\<lambda>t. t \<noteq> ''--'') xs = xs" "dropWhile (\<lambda>t. t \<noteq> ''--'') xs = []"
    if "''--'' \<notin> set xs"
    using that by (induction xs) auto
  have closed: "simplify_args (prog # xs) =
     concat (map expand_token (takeWhile (\<lambda>t. t \<noteq> ''--'') xs)) @ dropWhile (\<lambda>t. t \<noteq> ''--'') xs"
    by (simp add: simplify_args_closed spec_normalize_def)
  have plain: "simplify_args (prog # xs) = concat (map expand_token xs)" if "''--'' \<notin> set xs"
    unfolding closed all [OF that] by simp
  show ?thesis
    using closed plain by (simp add: expand_token_def is_cluster_def)
qed

theorem cluster_expansion_witness:
  "simplify_args [''jsonnet'', ''-abc'', ''--exec'', ''-s'', ''5'', ''-'', ''--'', ''-xyz'']
     = [''-a'', ''-b'', ''-c'', ''--exec'', ''-s'', ''5'', ''-'', ''--'', ''-xyz'']
   \<and> simplify_args [''jsonnet'', ''-es'', ''5''] = [''-e'', ''-s'', ''5'']"
  using cluster_expansion [of "''jsonnet''"
          "[''-abc'', ''--exec'', ''-s'', ''5'', ''-'', ''--'', ''-xyz'']" "''-abc''"]
        cluster_expansion [of "''jsonnet''" "[''-es'', ''5'']" "''-es''"]
  by (simp add: expand_token_def is_cluster_def)

subsection \<open>A flag without its value\<close>

text \<open>Claim C9, as stated: every normalised stream whose last token is a flag that takes a
  value ends in the error of the missing argument. It fails when the flag is not read as an
  option: in \<^verbatim>\<open>jsonnet -- -s\<close> the token \<open>''-s''\<close> is the filename, and the pipeline
  runs.\<close>

theorem value_flag_after_terminator_is_filename:
  "simplify_args [''jsonnet'', ''--'', ''-s''] = [''--'', ''-s'']
   \<and> main integer_platform echo_world [''jsonnet'', ''--'', ''-s''] =
       \<lparr> exit_code = EXIT_SUCCESS, out = ''{}'' @ endl, err = [],
         calls = [CallParse ''-s'' ''{}'', CallStaticAnalysis ''{}'',
                  CallVmExecute ''{}'' 500 1000 2] \<rparr>"
proof -
  have n: "simplify_args [''jsonnet'', ''--'', ''-s''] = [''--'', ''-s'']"
    by (simp add: simplify_args_closed spec_normalize_simps)
  have p: "parse_options integer_platform [''--'', ''-s'']
             = Inr ((init_config integer_platform)\<lparr>filename := ''-s''\<rparr>)"
    by (simp add: parse_options_def parse_loop_terminator check_filename_def init_config_def)
  have m: "main integer_platform echo_world [''jsonnet'', ''--'', ''-s'']
             = run echo_world ((init_config integer_platform)\<lparr>filename := ''-s''\<rparr>)"
    by (simp add: main_def n p)
  show ?thesis
    unfolding n m
    by (simp add: run_def read_input_def init_config_def integer_platform_def echo_world_def
                  c_str_def)
qed

text \<open>Claim C9, amended. When the option loop reaches, as an option, a flag that takes a
  value (\<^verbatim>\<open>-s\<close>, \<^verbatim>\<open>--max-stack\<close>, \<^verbatim>\<open>--gc-min-objects\<close>, \<^verbatim>\<open>--gc-growth-trigger\<close>) and
  no token follows it, the process writes \<^verbatim>\<open>Expected another commandline argument.\<close> to
  standard error and ends with the failure status, no collaborator called. The loop reaches
  the last token as an option when it gets through the tokens before it without an exit and
  none of them is the terminator.\<close>

theorem missing_option_value:
  assumes "flag \<in> {''-s'', ''--max-stack'', ''--gc-min-objects'', ''--gc-growth-trigger''}"
      and "parse_loop F pre 0 (init_config F) [] = Inr (cfg, rem)"
      and "''--'' \<notin> set pre"
      and "simplify_args argv = pre @ [flag]"
  shows "parse_loop F (pre @ [flag]) (length pre) cfg' rem' =
           Inl (Exit EXIT_FAILURE [] (''Expected another commandline argument.'' @ endl))
       \<and> parse_options F (pre @ [flag]) =
           Inl (Exit EXIT_FAILURE [] (''Expected another commandline argument.'' @ endl))
       \<and> main F W argv =
           \<lparr> exit_code = EXIT_FAILURE, out = [],
             err = ''Expected another commandline argument.'' @ endl, calls = [] \<rparr>"
proof -
  let ?args = "pre @ [flag]"
  let ?e = "Exit EXIT_FAILURE [] (''Expected another commandline argument.'' @ endl)"
  have i: "length pre < length ?args" "?args ! length pre = flag"
          "length pre + 1 \<ge> length ?args"
    by simp_all
  have here: "parse_loop F ?args (length pre) c r = Inl ?e" for c r
  proof -
    have s: "opt_max_stack (length pre) ?args c = Inl ?e"
      by (rule opt_missing_value(1) [OF i(3)])
    have m: "opt_gc_min_objects (length pre) ?args c = Inl ?e"
      by (rule opt_missing_value(2) [OF i(3)])
    have g: "opt_gc_growth_trigger F (length pre) ?args c = Inl ?e"
      by (rule opt_missing_value(3) [OF i(3)])
    from assms(1) consider (opt_s) "flag = ''-s'' \<or> flag = ''--max-stack''"
      | (opt_min) "flag = ''--gc-min-objects''"
      | (opt_growth) "flag = ''--gc-growth-trigger''"
      by auto
    then show ?thesis
    proof cases
      case opt_s
      then have "parse_loop F ?args (length pre) c r =
                   (case opt_max_stack (length pre) ?args c of
                      Inl e \<Rightarrow> Inl e | Inr (i', cfg') \<Rightarrow> parse_loop F ?args (i' + 1) cfg' r)"
        using i(1,2) by (intro parse_loop_max_stack) auto
      then show ?thesis by (simp only: s sum.case)
    next
      case opt_min
      then have "parse_loop F ?args (length pre) c r =
                   (case opt_gc_min_objects (length pre) ?args c of
                      Inl e \<Rightarrow> Inl e | Inr (i', cfg') \<Rightarrow> parse_loop F ?args (i' + 1) cfg' r)"
        using i(1,2) by (intro parse_loop_gc_min_objects) auto
      then show ?thesis by (simp only: m sum.case)
    next
      case opt_growth
      then have "parse_loop F ?args (length pre) c r =
                   (case opt_gc_growth_trigger F (length pre) ?args c of
                      Inl e \<Rightarrow> Inl e | Inr (i', cfg') \<Rightarrow> parse_loop F ?args (i' + 1) cfg' r)"
        using i(1,2) by (intro parse_loop_gc_growth_trigger) auto
      then show ?thesis by (simp only: g sum.case)
    qed
  qed
  have "parse_loop F ?args 0 (init_config F) [] = parse_loop F ?args (length pre) cfg rem"
    using assms(2,3) by (intro parse_loop_prefix) auto
  then have po: "parse_options F ?args = Inl ?e"
    by (simp add: parse_options_def here)
  then have "main F W argv =
           \<lparr> exit_code = EXIT_FAILURE, out = [],
             err = ''Expected another commandline argument.'' @ endl, calls = [] \<rparr>"
    using assms(4) by (simp add: main_def)
  with here po show ?thesis by simp
qed

theorem missing_option_value_witness:
  "main integer_platform echo_world [''jsonnet'', ''-e'', ''--max-stack''] =
     \<lparr> exit_code = EXIT_FAILURE, out = [],
       err = ''Expected another commandline argument.'' @ endl, calls = [] \<rparr>"
proof -
  let ?F = integer_platform
  have a: "''--max-stack'' \<in> {''-s'', ''--max-stack'', ''--gc-min-objects'', ''--gc-growth-trigger''}"
    by simp
  have b: "parse_loop ?F [''-e''] 0 (init_config ?F) []
             = Inr ((init_config ?F)\<lparr>filename_is_code := True\<rparr>, [])"
    by (simp add: parse_loop_exec parse_loop_end)
  have c: "''--'' \<notin> set [''-e'']" by simp
  have d: "simplify_args [''jsonnet'', ''-e'', ''--max-stack''] = [''-e''] @ [''--max-stack'']"
    by (simp add: simplify_args_plain is_cluster_def)
  show ?thesis
    using missing_option_value [OF a b c d, of "init_config ?F" "[]" echo_world] by simp
qed

subsection \<open>The option \<^verbatim>\<open>--gc-growth-trigger\<close> in the model\<close>

text \<open>The branch of \<^verbatim>\<open>--gc-growth-trigger\<close>, whatever \<^verbatim>\<open>strtod\<close>, the comparison
  with 0 and the bytes \<open>g\<close> read through the pointer of line 126 are: if \<^verbatim>\<open>strtod\<close> leaves
  characters of \<open>g\<close> unread, or \<open>g\<close> is empty, or the value is below 0, the process ends with
  usage on standard error and the failure status; otherwise the loop goes on with the value
  stored. The token \<open>t\<close> itself counts only through \<open>g\<close>.\<close>

lemma gc_growth_trigger_option:
  "parse_loop F (pre @ ''--gc-growth-trigger'' # t # post) (length pre) cfg rem =
     (let g = freed_c_str F t in
      if snd (strtod F g) \<noteq> [] \<or> g = []
      then Inl (Exit EXIT_FAILURE []
             (''ERROR: Invalid number '' @ dquote @ g @ dquote @ endl @ usage))
      else if less_zero F (fst (strtod F g))
      then Inl (Exit EXIT_FAILURE []
             (''ERROR: Invalid --gc-growth-trigger '' @ dquote @ g @ dquote @ endl @ endl
              @ usage))
      else parse_loop F (pre @ ''--gc-growth-trigger'' # t # post) (length pre + 2)
             (cfg\<lparr>gc_growth_trigger := fst (strtod F g)\<rparr>) rem)"
proof -
  let ?args = "pre @ ''--gc-growth-trigger'' # t # post"
  let ?g = "freed_c_str F t"
  have i: "length pre < length ?args" "?args ! length pre = ''--gc-growth-trigger''"
    and n: "length pre + 1 < length ?args" "?args ! (length pre + 1) = t"
    by (simp_all add: nth_append)
  have o: "opt_gc_growth_trigger F (length pre) ?args cfg =
     (if snd (strtod F ?g) \<noteq> [] \<or> ?g = []
      then Inl (Exit EXIT_FAILURE []
             (''ERROR: Invalid number '' @ dquote @ ?g @ dquote @ endl @ usage))
      else if less_zero F (fst (strtod F ?g))
      then Inl (Exit EXIT_FAILURE []
             (''ERROR: Invalid --gc-growth-trigger '' @ dquote @ ?g @ dquote @ endl @ endl
              @ usage))
      else Inr (length pre + 1, cfg\<lparr>gc_growth_trigger := fst (strtod F ?g)\<rparr>))"
    using n by (auto simp: opt_gc_growth_trigger_def next_arg_def Let_def split: prod.splits)
  have "parse_loop F ?args (length pre) cfg rem =
          (case opt_gc_growth_trigger F (length pre) ?args cfg of
             Inl e \<Rightarrow> Inl e | Inr (i', cfg') \<Rightarrow> parse_loop F ?args (i' + 1) cfg' rem)"
    using i by (intro parse_loop_gc_growth_trigger) auto
  then show ?thesis unfolding o Let_def by auto
qed

subsection \<open>The report of a runtime error\<close>

lemma run_runtime_error:
  assumes "read_input W cfg = Inr (fname, input)"
      and "jsonnet_parse W fname (c_str input) = Inr expr"
      and "\<not> debug_ast cfg"
      and "jsonnet_static_analysis W expr = Inr expr'"
      and "jsonnet_vm_execute W expr' (max_stack cfg) (gc_min_objects cfg) (gc_growth_trigger cfg)
             = Inl e"
  shows "run W cfg =
           \<lparr> exit_code = EXIT_FAILURE, out = [], err = report_runtime_error e,
             calls = [CallParse fname (c_str input), CallStaticAnalysis expr,
                      CallVmExecute expr' (max_stack cfg) (gc_min_objects cfg)
                        (gc_growth_trigger cfg)] \<rparr>"
  using assms by (simp add: run_def)

text \<open>Claim C2. When the execution fails with a \<^verbatim>\<open>RuntimeError\<close>, \<^verbatim>\<open>main\<close> ends with the
  failure status, nothing on standard output, and on standard error the line
  \<^verbatim>\<open>RUNTIME ERROR:\<close> with the message, then the stack trace: for the frames \<open>0\<close> to
  \<open>sz - 1\<close> in order, frame \<open>i\<close> (a tab, its location, a tab, its name, a newline) exactly
  when \<open>i < max_above\<close> or \<open>i \<ge> sz - max_below\<close>, and the ellipsis line (a tab, three dots, a
  newline) once, at \<open>i = max_above\<close>, exactly when \<open>sz > max_above + max_below\<close>. So the
  trace is the first ten frames, the ellipsis if there are more than twenty frames, the last
  ten frames, and every frame without ellipsis when there are at most twenty. A trace of 25
  frames gives frames 0 to 9, the ellipsis and frames 15 to 24, 21 lines; a trace of 15
  frames gives its 15 frames.\<close>

theorem stack_trace_window:
  "report_runtime_error e =
     ''RUNTIME ERROR: '' @ msg e @ [CHR 0x0A]
     @ concat (map (\<lambda>f. CHR 0x09 # location f @ CHR 0x09 # name f @ [CHR 0x0A])
                (take 10 (stackTrace e)))
     @ (if length (stackTrace e) > 20 then [CHR 0x09, CHR ''.'', CHR ''.'', CHR ''.'', CHR 0x0A]
        else [])
     @ concat (map (\<lambda>f. CHR 0x09 # location f @ CHR 0x09 # name f @ [CHR 0x0A])
                (drop (max 10 (length (stackTrace e) - 10)) (stackTrace e)))
   \<and> (read_input W cfg = Inr (fname, input)
      \<and> jsonnet_parse W fname (c_str input) = Inr expr
      \<and> \<not> debug_ast cfg
      \<and> jsonnet_static_analysis W expr = Inr expr'
      \<and> jsonnet_vm_execute W expr' (max_stack cfg) (gc_min_objects cfg) (gc_growth_trigger cfg)
          = Inl e
      \<longrightarrow> exit_code (run W cfg) = EXIT_FAILURE \<and> out (run W cfg) = []
          \<and> err (run W cfg) = report_runtime_error e
          \<and> (parse_options F (simplify_args argv) = Inr cfg \<longrightarrow> main F W argv = run W cfg))
   \<and> report_runtime_error e
       = ''RUNTIME ERROR: '' @ msg e @ endl @ concat (print_trace (stackTrace e) 0)
   \<and> frame_line f = CHR 0x09 # location f @ CHR 0x09 # name f @ [CHR 0x0A]
   \<and> ellipsis_line = [CHR 0x09, CHR ''.'', CHR ''.'', CHR ''.'', CHR 0x0A]
   \<and> print_trace st 0 = concat (map (spec_trace_line st) [0 ..< length st])
   \<and> print_trace st 0 =
       map frame_line (take 10 st)
       @ (if length st > 20 then [ellipsis_line] else [])
       @ map frame_line (drop (max 10 (length st - 10)) st)
   \<and> (length st \<le> 20 \<longrightarrow> print_trace st 0 = map frame_line st)
   \<and> (length st = 25 \<longrightarrow>
        print_trace st 0 =
          map frame_line (take 10 st) @ [ellipsis_line] @ map frame_line (drop 15 st)
        \<and> length (print_trace st 0) = 21)
   \<and> (length st = 15 \<longrightarrow>
        print_trace st 0 = map frame_line st \<and> length (print_trace st 0) = 15)"
proof -
  let ?line = "\<lambda>f. CHR 0x09 # location f @ CHR 0x09 # name f @ [CHR 0x0A]"
  have fl: "frame_line = ?line"
    by (rule ext) (simp add: frame_line_def tab_def endl_def)
  have el: "ellipsis_line = [CHR 0x09, CHR ''.'', CHR ''.'', CHR ''.'', CHR 0x0A]"
    by (simp add: ellipsis_line_def tab_def endl_def)
  have rep: "report_runtime_error e =
     ''RUNTIME ERROR: '' @ msg e @ [CHR 0x0A]
     @ concat (map ?line (take 10 (stackTrace e)))
     @ (if length (stackTrace e) > 20 then [CHR 0x09, CHR ''.'', CHR ''.'', CHR ''.'', CHR 0x0A]
        else [])
     @ concat (map ?line (drop (max 10 (length (stackTrace e) - 10)) (stackTrace e)))"
    unfolding report_runtime_error_def print_trace_closed [of "stackTrace e"] fl el
    by (simp add: endl_def)
  have runs: "exit_code (run W cfg) = EXIT_FAILURE \<and> out (run W cfg) = []
          \<and> err (run W cfg) = report_runtime_error e
          \<and> (parse_options F (simplify_args argv) = Inr cfg \<longrightarrow> main F W argv = run W cfg)"
    if "read_input W cfg = Inr (fname, input)"
       "jsonnet_parse W fname (c_str input) = Inr expr"
       "\<not> debug_ast cfg"
       "jsonnet_static_analysis W expr = Inr expr'"
       "jsonnet_vm_execute W expr' (max_stack cfg) (gc_min_objects cfg) (gc_growth_trigger cfg)
          = Inl e"
    using run_runtime_error [OF that] by (simp add: main_def)
  have l25: "length (print_trace st 0) = 21" if "length st = 25"
    using that print_trace_long [of st] by simp
  have e25: "print_trace st 0 =
          map frame_line (take 10 st) @ [ellipsis_line] @ map frame_line (drop 15 st)"
    if "length st = 25"
    using that print_trace_long [of st] by simp
  have l15: "length (print_trace st 0) = 15" if "length st = 15"
    using that print_trace_short [of st] by simp
  have s15: "print_trace st 0 = map frame_line st" if "length st = 15"
    using that print_trace_short [of st] by simp
  have fl1: "frame_line f = ?line f" by (simp add: fl)
  show ?thesis
    apply (intro conjI impI)
    subgoal by (rule rep)
    subgoal using runs by blast
    subgoal using runs by blast
    subgoal using runs by blast
    subgoal using runs by blast
    subgoal by (simp add: report_runtime_error_def)
    subgoal by (rule fl1)
    subgoal by (rule el)
    subgoal by (rule print_trace_upt)
    subgoal by (rule print_trace_closed)
    subgoal by (rule print_trace_short)
    subgoal by (rule e25)
    subgoal by (rule l25)
    subgoal by (rule s15)
    subgoal by (rule l15)
    done
qed


theorem stack_trace_window_witness:
  "exit_code (main integer_platform (stack_overflow_world 25) [''jsonnet'']) = EXIT_FAILURE
   \<and> out (main integer_platform (stack_overflow_world 25) [''jsonnet'']) = []
   \<and> err (main integer_platform (stack_overflow_world 25) [''jsonnet'']) =
       ''RUNTIME ERROR: Max stack frames exceeded.'' @ [CHR 0x0A]
       @ concat (replicate 10 (CHR 0x09 # ''a.jsonnet:1:1'' @ CHR 0x09 # ''f'' @ [CHR 0x0A]))
       @ [CHR 0x09, CHR ''.'', CHR ''.'', CHR ''.'', CHR 0x0A]
       @ concat (replicate 10 (CHR 0x09 # ''a.jsonnet:1:1'' @ CHR 0x09 # ''f'' @ [CHR 0x0A]))
   \<and> err (main integer_platform (stack_overflow_world 15) [''jsonnet'']) =
       ''RUNTIME ERROR: Max stack frames exceeded.'' @ [CHR 0x0A]
       @ concat (replicate 15 (CHR 0x09 # ''a.jsonnet:1:1'' @ CHR 0x09 # ''f'' @ [CHR 0x0A]))"
proof -
  let ?F = integer_platform
  let ?cfg = "init_config ?F"
  let ?f = "\<lparr> location = ''a.jsonnet:1:1'', name = ''f'' \<rparr>"
  let ?e = "\<lambda>n. \<lparr> msg = ''Max stack frames exceeded.'', stackTrace = replicate n ?f \<rparr>"
  let ?line = "CHR 0x09 # ''a.jsonnet:1:1'' @ CHR 0x09 # ''f'' @ [CHR 0x0A]"
  have c: "c_str ''{}'' = ''{}''" by (simp add: c_str_def)
  have p: "parse_options ?F (simplify_args [''jsonnet'']) = Inr ?cfg"
    by (simp add: simplify_args_closed spec_normalize_simps parse_options_def parse_loop_end
                  check_filename_def init_config_def)
  have r: "read_input (stack_overflow_world n) ?cfg = Inr (''<stdin>'', ''{}'')" for n
    by (simp add: read_input_def init_config_def stack_overflow_world_def echo_world_def)
  have j: "jsonnet_parse (stack_overflow_world n) ''<stdin>'' (c_str ''{}'') = Inr ''{}''" for n
    by (simp add: stack_overflow_world_def echo_world_def c)
  have d: "\<not> debug_ast ?cfg" by (simp add: init_config_def)
  have a: "jsonnet_static_analysis (stack_overflow_world n) ''{}'' = Inr ''{}''" for n
    by (simp add: stack_overflow_world_def echo_world_def)
  have v: "jsonnet_vm_execute (stack_overflow_world n) ''{}'' (max_stack ?cfg)
             (gc_min_objects ?cfg) (gc_growth_trigger ?cfg) = Inl (?e n)" for n
    by (simp add: stack_overflow_world_def)
  have all: "read_input (stack_overflow_world n) ?cfg = Inr (''<stdin>'', ''{}'')
      \<and> jsonnet_parse (stack_overflow_world n) ''<stdin>'' (c_str ''{}'') = Inr ''{}''
      \<and> \<not> debug_ast ?cfg
      \<and> jsonnet_static_analysis (stack_overflow_world n) ''{}'' = Inr ''{}''
      \<and> jsonnet_vm_execute (stack_overflow_world n) ''{}'' (max_stack ?cfg)
             (gc_min_objects ?cfg) (gc_growth_trigger ?cfg) = Inl (?e n)" for n
    using r j d a v by blast
  note t = stack_trace_window [of _ "stack_overflow_world n" ?cfg "''<stdin>''" "''{}''" "''{}''"
             "''{}''" ?F "[''jsonnet'']" for n]
  have m: "main ?F (stack_overflow_world n) [''jsonnet''] = run (stack_overflow_world n) ?cfg"
    and x: "exit_code (run (stack_overflow_world n) ?cfg) = EXIT_FAILURE"
    and o: "out (run (stack_overflow_world n) ?cfg) = []"
    and e: "err (run (stack_overflow_world n) ?cfg) = report_runtime_error (?e n)" for n
    using t [of "?e n" n] all [of n] p by blast+
  have rep: "report_runtime_error (?e n) =
     ''RUNTIME ERROR: '' @ msg (?e n) @ [CHR 0x0A]
     @ concat (map (\<lambda>f. CHR 0x09 # location f @ CHR 0x09 # name f @ [CHR 0x0A])
                (take 10 (stackTrace (?e n))))
     @ (if length (stackTrace (?e n)) > 20 then [CHR 0x09, CHR ''.'', CHR ''.'', CHR ''.'', CHR 0x0A]
        else [])
     @ concat (map (\<lambda>f. CHR 0x09 # location f @ CHR 0x09 # name f @ [CHR 0x0A])
                (drop (max 10 (length (stackTrace (?e n)) - 10)) (stackTrace (?e n))))" for n
    using t [of "?e n" n] by blast
  have r25: "report_runtime_error (?e 25) =
       ''RUNTIME ERROR: Max stack frames exceeded.'' @ [CHR 0x0A]
       @ concat (replicate 10 ?line)
       @ [CHR 0x09, CHR ''.'', CHR ''.'', CHR ''.'', CHR 0x0A]
       @ concat (replicate 10 ?line)"
    unfolding rep [of 25] by simp
  have r15: "report_runtime_error (?e 15) =
       ''RUNTIME ERROR: Max stack frames exceeded.'' @ [CHR 0x0A]
       @ concat (replicate 15 ?line)"
  proof -
    have "replicate (10 + 5) ?line = replicate 10 ?line @ replicate 5 ?line"
      by (rule replicate_add)
    then have k: "concat (replicate 15 ?line)
                    = concat (replicate 10 ?line) @ concat (replicate 5 ?line)"
      by simp
    show ?thesis unfolding rep [of 15] k by simp
  qed
  show ?thesis
    unfolding m x o e r25 r15 by simp
qed

subsection \<open>The option \<^verbatim>\<open>--gc-growth-trigger\<close> on the command line\<close>

lemma growth_trigger_on_main:
  assumes "\<not> is_cluster t" and "t \<noteq> ''--''"
  shows "main F W [''jsonnet'', ''--gc-growth-trigger'', t] =
     (let g = freed_c_str F t in
      if snd (strtod F g) \<noteq> [] \<or> g = []
      then \<lparr> exit_code = EXIT_FAILURE, out = [],
             err = ''ERROR: Invalid number '' @ dquote @ g @ dquote @ endl @ usage,
             calls = [] \<rparr>
      else if less_zero F (fst (strtod F g))
      then \<lparr> exit_code = EXIT_FAILURE, out = [],
             err = ''ERROR: Invalid --gc-growth-trigger '' @ dquote @ g @ dquote @ endl @ endl
                   @ usage,
             calls = [] \<rparr>
      else run W ((init_config F)\<lparr>gc_growth_trigger := fst (strtod F g)\<rparr>))"
proof -
  let ?args = "[''--gc-growth-trigger'', t]"
  have n: "simplify_args [''jsonnet'', ''--gc-growth-trigger'', t] = ?args"
    using assms by (simp add: simplify_args_plain is_cluster_def)
  have l: "parse_loop F ?args 0 (init_config F) [] =
     (let g = freed_c_str F t in
      if snd (strtod F g) \<noteq> [] \<or> g = []
      then Inl (Exit EXIT_FAILURE []
             (''ERROR: Invalid number '' @ dquote @ g @ dquote @ endl @ usage))
      else if less_zero F (fst (strtod F g))
      then Inl (Exit EXIT_FAILURE []
             (''ERROR: Invalid --gc-growth-trigger '' @ dquote @ g @ dquote @ endl @ endl
              @ usage))
      else Inr ((init_config F)\<lparr>gc_growth_trigger := fst (strtod F g)\<rparr>, []))"
    using gc_growth_trigger_option [of F "[]" t "[]" "init_config F" "[]"]
    by (simp add: Let_def parse_loop_end)
  have c: "check_filename ((init_config F)\<lparr>gc_growth_trigger := v\<rparr>) []
             = Inr ((init_config F)\<lparr>gc_growth_trigger := v\<rparr>)" for v
    by (simp add: check_filename_def init_config_def)
  show ?thesis
    unfolding main_def n parse_options_def l Let_def by (simp add: c)
qed

text \<open>\<^verbatim>\<open>jsonnet --gc-growth-trigger -0.5\<close> fails on every platform, though not in this
  branch alone: the normaliser splits \<open>''-0.5''\<close> into \<open>''-0''\<close>, \<open>''-.''\<close> and \<open>''-5''\<close>, so
  either the branch refuses \<open>''-0''\<close> or two positional arguments are left.\<close>

lemma growth_trigger_minus_half_fails:
  "simplify_args [''jsonnet'', ''--gc-growth-trigger'', ''-0.5'']
     = [''--gc-growth-trigger'', ''-0'', ''-.'', ''-5'']"
  "exit_code (main F W [''jsonnet'', ''--gc-growth-trigger'', ''-0.5'']) = EXIT_FAILURE"
  "calls (main F W [''jsonnet'', ''--gc-growth-trigger'', ''-0.5'']) = []"
proof -
  let ?args = "[''--gc-growth-trigger'', ''-0'', ''-.'', ''-5'']"
  show n: "simplify_args [''jsonnet'', ''--gc-growth-trigger'', ''-0.5''] = ?args"
    by (simp add: simplify_args_closed spec_normalize_simps expand_token_def is_cluster_def)
  have rest: "parse_loop F ?args 2 c [] = Inr (c, [''-.'', ''-5''])" for c
    by (simp add: parse_loop_positional parse_loop_end is_option_def)
  have rest': "parse_loop F ?args (Suc (Suc 0)) c [] = Inr (c, [''-.'', ''-5''])" for c
    using rest [of c] by (simp only: numeral_2_eq_2)
  have two: "\<exists>x. check_filename ((init_config F)\<lparr>gc_growth_trigger := v\<rparr>) [''-.'', ''-5'']
                   = Inl (Exit EXIT_FAILURE [] x)" for v
    by (simp add: check_filename_def)
  have "\<exists>x. parse_options F ?args = Inl (Exit EXIT_FAILURE [] x)"
    using gc_growth_trigger_option [of F "[]" "''-0''" "[''-.'', ''-5'']" "init_config F" "[]"] two
    by (auto simp: parse_options_def Let_def rest')
  then obtain x where "parse_options F ?args = Inl (Exit EXIT_FAILURE [] x)" ..
  then show "exit_code (main F W [''jsonnet'', ''--gc-growth-trigger'', ''-0.5'']) = EXIT_FAILURE"
       and "calls (main F W [''jsonnet'', ''--gc-growth-trigger'', ''-0.5'']) = []"
    by (simp_all add: main_def n)
qed

text \<open>Claim C7: a token after \<^verbatim>\<open>--gc-growth-trigger\<close> that is a well-formed number of
  value at least 0 is stored as gc-growth-trigger; a malformed token or a negative value
  ends the process with usage on standard error and the failure status. What the code does
  on \<^verbatim>\<open>jsonnet --gc-growth-trigger 00000000000000000000000002\<close>, a token of 26 digits: the
  outcome is decided by the bytes \<open>g\<close> found through the pointer into the destroyed
  temporary (line 126), not by the token. Where these bytes are not a number the process
  prints \<^verbatim>\<open>ERROR: Invalid number\<close> with them and fails, although the token is a
  well-formed number of value 2. (The lemma \<open>gc_growth_trigger_option\<close> above gives the
  branch in general, \<open>growth_trigger_minus_half_fails\<close> the token \<open>''-0.5''\<close>.)\<close>

theorem growth_trigger_reads_destroyed_temporary:
  "main F W [''jsonnet'', ''--gc-growth-trigger'', ''00000000000000000000000002''] =
     (let g = freed_c_str F ''00000000000000000000000002'' in
      if snd (strtod F g) \<noteq> [] \<or> g = []
      then \<lparr> exit_code = EXIT_FAILURE, out = [],
             err = ''ERROR: Invalid number '' @ dquote @ g @ dquote @ endl @ usage,
             calls = [] \<rparr>
      else if less_zero F (fst (strtod F g))
      then \<lparr> exit_code = EXIT_FAILURE, out = [],
             err = ''ERROR: Invalid --gc-growth-trigger '' @ dquote @ g @ dquote @ endl @ endl
                   @ usage,
             calls = [] \<rparr>
      else run W ((init_config F)\<lparr>gc_growth_trigger := fst (strtod F g)\<rparr>))"
  by (rule growth_trigger_on_main) (simp_all add: is_cluster_def)

theorem growth_trigger_reads_destroyed_temporary_witness:
  "strtod integer_platform ''00000000000000000000000002'' = (2, [])
   \<and> \<not> less_zero integer_platform 2
   \<and> main integer_platform echo_world
       [''jsonnet'', ''--gc-growth-trigger'', ''00000000000000000000000002''] =
       \<lparr> exit_code = EXIT_FAILURE, out = [],
         err = ''ERROR: Invalid number '' @ dquote @ dquote @ endl @ usage,
         calls = [] \<rparr>"
proof -
  have g: "freed_c_str integer_platform ''00000000000000000000000002'' = []"
    by (simp add: integer_platform_def)
  have v: "strtod integer_platform ''00000000000000000000000002'' = (2, [])"
    by (simp add: integer_platform_def strtol_def isspace_def isdigit_def decimal_def
                  digit_val_def clamp_long_def LONG_MAX_def LONG_MIN_def)
  have z: "\<not> less_zero integer_platform 2" by (simp add: integer_platform_def)
  have "main integer_platform echo_world
       [''jsonnet'', ''--gc-growth-trigger'', ''00000000000000000000000002''] =
       \<lparr> exit_code = EXIT_FAILURE, out = [],
         err = ''ERROR: Invalid number '' @ dquote @ dquote @ endl @ usage,
         calls = [] \<rparr>"
    unfolding growth_trigger_reads_destroyed_temporary [of integer_platform echo_world] g Let_def
    by simp
  with v z show ?thesis by simp
qed

end
